theory Spec2Isabelle
  imports Main "HOL-Library.Sublist"
begin

section \<open>Data model\<close>

text \<open>
  The module \<^verbatim>\<open>api_fat.py\<close> is a set of HTTP endpoints over five Django models
  (\<^verbatim>\<open>Item\<close>, \<^verbatim>\<open>Note\<close>, \<^verbatim>\<open>Attachment\<close>, \<^verbatim>\<open>Email\<close>, \<^verbatim>\<open>ComponentHistory\<close>). An item is a
  row of a nested-set table: besides its own attributes it carries the parent reference and
  the coordinates \<^verbatim>\<open>tree_id\<close>, \<^verbatim>\<open>lft\<close>, \<^verbatim>\<open>rght\<close>, \<^verbatim>\<open>level\<close> (the spec's
  \<^verbatim>\<open>forest_id\<close>, \<^verbatim>\<open>left_bound\<close>, \<^verbatim>\<open>right_bound\<close>, \<^verbatim>\<open>depth\<close>). Python integers are
  unbounded, so every number is an \<^typ>\<open>int\<close>. An attribute that may hold \<^verbatim>\<open>None\<close> is an
  option; \<^verbatim>\<open>name\<close> is one of them because \<^verbatim>\<open>update_item\<close> may assign \<^verbatim>\<open>None\<close> to it
  before validation. Timestamps are left out: no endpoint computes with them.
\<close>

record item =
  pk :: int
  name :: "string option"
  description :: "string option"
  qr_code :: "string option"
  parent_id :: "int option"
  tree_id :: int
  lft :: int
  rght :: int
  level :: int

text \<open>A stored history row holds three nullable foreign keys.\<close>

record history_row =
  hr_id :: int
  hr_item :: "int option"
  hr_old_parent :: "int option"
  hr_new_parent :: "int option"

text \<open>
  A \<^verbatim>\<open>ComponentHistory\<close> object as the serializer sees it: each foreign key is either the
  related item object or \<^verbatim>\<open>None\<close>.
\<close>

record ComponentHistory =
  ch_id :: int
  ch_item :: "item option"
  ch_old_parent :: "item option"
  ch_new_parent :: "item option"

record UploadedFile =
  content_type :: string
  size :: int

record Attachment =
  att_id :: int
  att_item :: int
  att_file :: UploadedFile
  att_type :: string

record store =
  items :: "item list"
  history :: "history_row list"
  attachments :: "Attachment list"

text \<open>Request bodies. A field of \<^verbatim>\<open>ItemUpdate\<close> is unset (\<open>None\<close>), set to null
  (\<open>Some None\<close>) or set to a value: \<^verbatim>\<open>dict(exclude_unset=True)\<close> tells the first two
  apart, reading the attribute does not.\<close>

record ItemCreate =
  c_name :: string
  c_description :: "string option"
  c_parent_id :: "int option"

record ItemUpdate =
  u_name :: "string option option"
  u_description :: "string option option"
  u_parent_id :: "int option option"

text \<open>Exceptions. A validation error carries Django's error dictionary, field name to
  list of messages; \<^verbatim>\<open>HttpError\<close> carries the status code and the detail.\<close>

type_synonym field_errors = "(string \<times> string list) list"

datatype detail = Message string | FieldErrors field_errors

datatype exn = DoesNotExist | ValidationError field_errors | HttpError int detail

section \<open>History serialization\<close>

definition resolve_item :: "ComponentHistory \<Rightarrow> int option" where
  "resolve_item obj = (case ch_item obj of Some i \<Rightarrow> Some (pk i) | None \<Rightarrow> None)"

definition resolve_old_parent :: "ComponentHistory \<Rightarrow> int option" where
  "resolve_old_parent obj = (case ch_old_parent obj of Some i \<Rightarrow> Some (pk i) | None \<Rightarrow> None)"

definition resolve_new_parent :: "ComponentHistory \<Rightarrow> int option" where
  "resolve_new_parent obj = (case ch_new_parent obj of Some i \<Rightarrow> Some (pk i) | None \<Rightarrow> None)"

definition resolve_item_name :: "ComponentHistory \<Rightarrow> string option" where
  "resolve_item_name obj = (case ch_item obj of Some i \<Rightarrow> name i | None \<Rightarrow> Some ''Deleted Item'')"

definition resolve_old_parent_name :: "ComponentHistory \<Rightarrow> string option" where
  "resolve_old_parent_name obj =
     (case ch_old_parent obj of Some i \<Rightarrow> name i | None \<Rightarrow> Some ''Storage'')"

definition resolve_new_parent_name :: "ComponentHistory \<Rightarrow> string option" where
  "resolve_new_parent_name obj =
     (case ch_new_parent obj of Some i \<Rightarrow> name i | None \<Rightarrow> Some ''Storage'')"

text \<open>The fields of \<^verbatim>\<open>ComponentHistorySchema\<close>, the timestamp apart.\<close>

record ComponentHistoryOut =
  o_id :: int
  o_item :: "int option"
  o_old_parent :: "int option"
  o_new_parent :: "int option"
  o_item_name :: "string option"
  o_old_parent_name :: "string option"
  o_new_parent_name :: "string option"

definition ComponentHistorySchema :: "ComponentHistory \<Rightarrow> ComponentHistoryOut" where
  "ComponentHistorySchema obj =
     \<lparr>o_id = ch_id obj,
      o_item = resolve_item obj,
      o_old_parent = resolve_old_parent obj,
      o_new_parent = resolve_new_parent obj,
      o_item_name = resolve_item_name obj,
      o_old_parent_name = resolve_old_parent_name obj,
      o_new_parent_name = resolve_new_parent_name obj\<rparr>"

section \<open>The nested-set table\<close>

text \<open>
  The endpoints call into the model module and the nested-set mixin it inherits from
  (\<^verbatim>\<open>Item.objects.get\<close>, \<^verbatim>\<open>is_ancestor_of\<close>, \<^verbatim>\<open>get_descendants\<close>, \<^verbatim>\<open>get_ancestors\<close>,
  \<^verbatim>\<open>get_children\<close>, \<^verbatim>\<open>root_nodes\<close>, \<^verbatim>\<open>move_to\<close>, \<^verbatim>\<open>save\<close>). None of these is in
  \<^verbatim>\<open>api_fat.py\<close>; each definition of this section follows the specification instead
  (sections 3 to 6) and names the passage it follows.
\<close>

definition objects_get :: "item list \<Rightarrow> int \<Rightarrow> exn + item" where
  \<comment> \<open>Modelled from the spec: \<^verbatim>\<open>Item.objects.get(id=...)\<close> is the NodeStore's
      \<^verbatim>\<open>get(id) -> Node | NotFound\<close>.\<close>
  "objects_get tbl i =
     (case find (\<lambda>r. pk r = i) tbl of None \<Rightarrow> Inl DoesNotExist | Some r \<Rightarrow> Inr r)"

definition is_ancestor_of :: "item \<Rightarrow> item \<Rightarrow> bool" where
  \<comment> \<open>Modelled from the spec: \<^verbatim>\<open>is_ancestor_of(A, B)\<close> of section 4.3, same forest and
      \<^verbatim>\<open>A.left_bound < B.left_bound < B.right_bound < A.right_bound\<close>.\<close>
  "is_ancestor_of a b \<longleftrightarrow>
     tree_id a = tree_id b \<and> lft a < lft b \<and> lft b < rght b \<and> rght b < rght a"

definition get_descendants :: "item list \<Rightarrow> item \<Rightarrow> bool \<Rightarrow> item list" where
  \<comment> \<open>Modelled from the spec: \<^verbatim>\<open>descendants(N, include_self)\<close> of section 4.3, same forest
      and \<^verbatim>\<open>left_bound\<close> in \<^verbatim>\<open>[N.left_bound (+1 if excluding self), N.right_bound]\<close>. Section 6
      calls the result an ordered sequence; the order is the one section 4.3 gives for the
      coordinate queries, \<^verbatim>\<open>left_bound\<close> ascending.\<close>
  "get_descendants tbl n include_self =
     sort_key lft
       (filter (\<lambda>r. tree_id r = tree_id n \<and>
                     (if include_self then lft n else lft n + 1) \<le> lft r \<and> lft r \<le> rght n) tbl)"

definition get_ancestors :: "item list \<Rightarrow> item \<Rightarrow> bool \<Rightarrow> item list" where
  \<comment> \<open>Modelled from the spec: \<^verbatim>\<open>ancestors(N, include_self)\<close> of section 4.3, same forest,
      \<^verbatim>\<open>left_bound <= N.left_bound\<close> and \<^verbatim>\<open>right_bound >= N.right_bound\<close>, minus N itself
      if excluded, ordered by \<^verbatim>\<open>left_bound\<close> ascending.\<close>
  "get_ancestors tbl n include_self =
     sort_key lft
       (filter (\<lambda>r. tree_id r = tree_id n \<and> lft r \<le> lft n \<and> rght n \<le> rght r \<and>
                     (include_self \<or> pk r \<noteq> pk n)) tbl)"

definition get_children :: "item list \<Rightarrow> item \<Rightarrow> item list" where
  \<comment> \<open>Modelled from the spec: the children of a node are the rows whose parent reference
      is that node (section 3).\<close>
  "get_children tbl n = filter (\<lambda>r. parent_id r = Some (pk n)) tbl"

definition root_nodes :: "item list \<Rightarrow> item list" where
  \<comment> \<open>Modelled from the spec: a root has no parent reference (section 3, invariant 5).\<close>
  "root_nodes tbl = filter (\<lambda>r. parent_id r = None) tbl"

definition next_pk :: "item list \<Rightarrow> int" where
  \<comment> \<open>Modelled from the spec: the identity source for new node ids (section 6).\<close>
  "next_pk tbl = foldr max (map pk tbl) 0 + 1"

definition next_tree_id :: "item list \<Rightarrow> int" where
  \<comment> \<open>Modelled from the spec: the identity source for new forest ids (section 6).\<close>
  "next_tree_id tbl = foldr max (map tree_id tbl) 0 + 1"

definition width :: "item \<Rightarrow> int" where
  \<comment> \<open>Modelled from the spec: \<^verbatim>\<open>width = right_bound - left_bound + 1\<close> (section 4.2).\<close>
  "width n = rght n - lft n + 1"

definition in_interval :: "item \<Rightarrow> item \<Rightarrow> bool" where
  \<comment> \<open>Modelled from the spec: N and every node whose interval is contained in N's interval
      (section 4.2, Delete).\<close>
  "in_interval n r \<longleftrightarrow> tree_id r = tree_id n \<and> lft n \<le> lft r \<and> rght r \<le> rght n"

definition compact :: "item \<Rightarrow> item \<Rightarrow> item" where
  \<comment> \<open>Modelled from the spec: closing the gap left by N's subtree (section 4.2, Delete and
      Move step 2): a remaining node of the same forest with a bound greater than
      \<^verbatim>\<open>N.right_bound\<close> has \<^verbatim>\<open>width\<close> subtracted from that bound.\<close>
  "compact n r =
     (if tree_id r = tree_id n
      then r\<lparr>lft := (if rght n < lft r then lft r - width n else lft r),
             rght := (if rght n < rght r then rght r - width n else rght r)\<rparr>
      else r)"

definition make_room :: "int \<Rightarrow> int \<Rightarrow> int \<Rightarrow> item \<Rightarrow> item" where
  \<comment> \<open>Modelled from the spec: the shift of Insert (section 4.2) in forest \<open>t\<close> at position
      \<open>pos\<close> (the parent's \<^verbatim>\<open>right_bound\<close>), by \<open>w\<close> (2 for one new node, the subtree's
      width for a move): bounds greater or equal to \<open>pos\<close> are incremented by \<open>w\<close>.\<close>
  "make_room t pos w r =
     (if tree_id r = t
      then r\<lparr>lft := (if pos \<le> lft r then lft r + w else lft r),
             rght := (if pos \<le> rght r then rght r + w else rght r)\<rparr>
      else r)"

definition relocate :: "item \<Rightarrow> int option \<Rightarrow> int \<Rightarrow> int \<Rightarrow> int \<Rightarrow> item \<Rightarrow> item" where
  \<comment> \<open>Modelled from the spec: Move steps 3 and 4 on a node of N's subtree: one offset for
      both bounds, the depth changed by the net delta, the forest rewritten; N itself gets
      the new parent reference.\<close>
  "relocate n new_parent t off dlevel r =
     r\<lparr>parent_id := (if pk r = pk n then new_parent else parent_id r),
       tree_id := t, lft := lft r + off, rght := rght r + off, level := level r + dlevel\<rparr>"

definition move_to :: "item list \<Rightarrow> item \<Rightarrow> item option \<Rightarrow> item list" where
  \<comment> \<open>Modelled from the spec: Move of section 4.2 after its cycle check, which the endpoints
      do themselves: detach (compact the rest of the source forest), then re-insert before
      the target's \<^verbatim>\<open>right_bound\<close>, or as the root of a fresh forest with
      \<^verbatim>\<open>left_bound = 1\<close> and depth 0.\<close>
  "move_to tbl n target =
     (case target of
        None \<Rightarrow>
          map (\<lambda>r. if in_interval n r
                    then relocate n None (next_tree_id tbl) (1 - lft n) (- level n) r
                    else compact n r) tbl
      | Some p \<Rightarrow>
          (let pos = rght (compact n p) in
           map (\<lambda>r. if in_interval n r
                     then relocate n (Some (pk p)) (tree_id p) (pos - lft n) (level p + 1 - level n) r
                     else make_room (tree_id p) pos (width n) (compact n r)) tbl))"

definition insert_node :: "item list \<Rightarrow> item \<Rightarrow> exn + item \<times> item list" where
  \<comment> \<open>Modelled from the spec: Insert of section 4.2, which is what \<^verbatim>\<open>save()\<close> of a new item
      does: a root gets a fresh forest, bounds 1 and 2 and depth 0; a child goes immediately
      before its parent's \<^verbatim>\<open>right_bound\<close>. A parent reference to no row is NotFound.\<close>
  "insert_node tbl new =
     (case parent_id new of
        None \<Rightarrow>
          (let r = new\<lparr>pk := next_pk tbl, tree_id := next_tree_id tbl,
                       lft := 1, rght := 2, level := 0\<rparr>
           in Inr (r, tbl @ [r]))
      | Some i \<Rightarrow>
          (case objects_get tbl i of
             Inl e \<Rightarrow> Inl e
           | Inr p \<Rightarrow>
               (let r = new\<lparr>pk := next_pk tbl, tree_id := tree_id p,
                            lft := rght p, rght := rght p + 1, level := level p + 1\<rparr>
                in Inr (r, map (make_room (tree_id p) (rght p) 2) tbl @ [r]))))"

definition item_parent :: "item list \<Rightarrow> item \<Rightarrow> exn + item option" where
  \<comment> \<open>Modelled from the spec: \<^verbatim>\<open>item.parent\<close>, the node behind the nullable parent
      reference (section 3); a reference to no row is NotFound.\<close>
  "item_parent tbl obj =
     (case parent_id obj of
        None \<Rightarrow> Inr None
      | Some i \<Rightarrow> (case objects_get tbl i of Inl e \<Rightarrow> Inl e | Inr p \<Rightarrow> Inr (Some p)))"

definition save_item :: "item list \<Rightarrow> item \<Rightarrow> exn + item \<times> item list" where
  \<comment> \<open>Modelled from the spec: \<^verbatim>\<open>save()\<close> of an existing item. A changed parent reference is a
      Move (section 3, Lifecycle); name, description and code are plain attribute edits with
      no coordinate change (\<^verbatim>\<open>update_attrs\<close>, section 4.1).\<close>
  "save_item tbl obj =
     (case objects_get tbl (pk obj) of
        Inl e \<Rightarrow> Inl e
      | Inr old \<Rightarrow>
          (case item_parent tbl obj of
             Inl e \<Rightarrow> Inl e
           | Inr target \<Rightarrow>
               (let moved = (if parent_id obj = parent_id old then tbl else move_to tbl old target);
                    tbl' = map (\<lambda>r. if pk r = pk obj
                                     then r\<lparr>name := name obj, description := description obj,
                                            qr_code := qr_code obj\<rparr>
                                     else r) moved
                in (case objects_get tbl' (pk obj) of
                      Inl e \<Rightarrow> Inl e
                    | Inr saved \<Rightarrow> Inr (saved, tbl')))))"

definition next_history_id :: "history_row list \<Rightarrow> int" where
  \<comment> \<open>Modelled from the spec: the identity source, for history rows.\<close>
  "next_history_id h = foldr max (map hr_id h) 0 + 1"

definition ComponentHistory_create :: "store \<Rightarrow> item \<Rightarrow> item option \<Rightarrow> item option \<Rightarrow> store" where
  \<comment> \<open>Modelled from the spec: \<^verbatim>\<open>record(item, old_parent, new_parent)\<close> of the append-only
      HistoryLog (section 4.4); the row keeps the three references by id.\<close>
  "ComponentHistory_create s obj old_parent new_parent =
     s\<lparr>history := history s @
          [\<lparr>hr_id = next_history_id (history s), hr_item = Some (pk obj),
            hr_old_parent = map_option pk old_parent,
            hr_new_parent = map_option pk new_parent\<rparr>]\<rparr>"

type_synonym 'a txn = "store \<Rightarrow> (exn + 'a) \<times> store"

definition atomic :: "'a txn \<Rightarrow> 'a txn" where
  \<comment> \<open>Modelled from the spec: \<^verbatim>\<open>with transaction.atomic()\<close>; a mutation either commits fully
      or is rolled back entirely on any failure (section 5).\<close>
  "atomic body s = (case body s of (Inl e, s') \<Rightarrow> (Inl e, s) | (Inr v, s') \<Rightarrow> (Inr v, s'))"

section \<open>The endpoints\<close>

text \<open>
  The definitions of this section translate \<^verbatim>\<open>api_fat.py\<close>; the few that stand for
  library code say so. The \<^verbatim>\<open>print\<close> calls of the search are left out. A \<^verbatim>\<open>raise\<close> is an
  \<open>Inl\<close>, an \<^verbatim>\<open>except\<close> clause is a case on the exception, and the body of a
  \<^verbatim>\<open>with transaction.atomic()\<close> block is a function of its own, named after the endpoint.
  \<^verbatim>\<open>full_clean\<close> depends on the field declarations of the model module, which the
  sources do not contain: in the endpoints it is a parameter, the error dictionary it
  would raise (empty when the object is valid). What that dictionary holds is
  \<open>full_clean_spec\<close> below, after the specification's section 7.
\<close>

definition validate_parent_relationship :: "item list \<Rightarrow> item \<Rightarrow> int \<Rightarrow> exn + item" where
  "validate_parent_relationship tbl obj pid =
     (case objects_get tbl pid of
        Inl DoesNotExist \<Rightarrow> Inl (HttpError 404 (Message ''Parent item not found''))
      | Inl e \<Rightarrow> Inl e
      | Inr parent \<Rightarrow>
          if pk parent = pk obj \<or> is_ancestor_of obj parent
          then Inl (HttpError 400 (Message ''Circular dependency detected''))
          else Inr parent)"

subsection \<open>Listing and the children resolver\<close>

text \<open>A Python object for a row, with the attributes set on the instance at run time.\<close>

record item_obj =
  row :: item
  inst_attrs :: "(string \<times> bool) list"

definition fetched :: "item \<Rightarrow> item_obj" where
  "fetched r = \<lparr>row = r, inst_attrs = []\<rparr>"

definition setattr :: "item_obj \<Rightarrow> string \<Rightarrow> bool \<Rightarrow> item_obj" where
  "setattr obj k v = obj\<lparr>inst_attrs := (k, v) # inst_attrs obj\<rparr>"

definition getattr :: "item_obj \<Rightarrow> string \<Rightarrow> bool \<Rightarrow> bool" where
  "getattr obj k dflt = (case map_of (inst_attrs obj) k of Some v \<Rightarrow> v | None \<Rightarrow> dflt)"

definition resolve_children :: "item list \<Rightarrow> item_obj \<Rightarrow> item_obj list" where
  \<comment> \<open>\<^verbatim>\<open>hasattr(obj, 'get_children')\<close> holds of every item object, so the last
      \<^verbatim>\<open>return []\<close> is not reached.\<close>
  "resolve_children tbl obj =
     (if getattr obj ''_is_flat_view'' False then []
      else map fetched (get_children tbl (row obj)))"

definition list_items :: "item list \<Rightarrow> bool \<Rightarrow> item_obj list" where
  \<comment> \<open>Nothing in the body raises here, so the handler that answers 500 has no case.\<close>
  "list_items tbl hierarchical =
     (if hierarchical then map fetched (root_nodes tbl)
      else map (\<lambda>obj. setattr obj ''is_flat_view'' True) (map fetched tbl))"

definition children_in_response :: "item list \<Rightarrow> item_obj list \<Rightarrow> (int \<times> int list) list" where
  \<comment> \<open>What \<^verbatim>\<open>List[ItemOut]\<close> makes of the returned objects, reduced to the id and the ids
      of the \<^verbatim>\<open>children\<close> field.\<close>
  "children_in_response tbl objs =
     map (\<lambda>obj. (pk (row obj), map (\<lambda>c. pk (row c)) (resolve_children tbl obj))) objs"

subsection \<open>Tree and breadcrumb\<close>

definition get_item_tree :: "item list \<Rightarrow> int \<Rightarrow> exn + item list" where
  "get_item_tree tbl iid =
     (case objects_get tbl iid of
        Inl DoesNotExist \<Rightarrow> Inl (HttpError 404 (Message ''Item not found''))
      | Inl e \<Rightarrow> Inl e
      | Inr obj \<Rightarrow> Inr (get_descendants tbl obj True))"

definition get_breadcrumb :: "item list \<Rightarrow> int \<Rightarrow> exn + item list" where
  "get_breadcrumb tbl iid =
     (case objects_get tbl iid of
        Inl DoesNotExist \<Rightarrow> Inl (HttpError 404 (Message ''Item not found''))
      | Inl e \<Rightarrow> Inl e
      | Inr obj \<Rightarrow> Inr (get_ancestors tbl obj True))"

subsection \<open>Create, update, reparent\<close>

definition Item :: "ItemCreate \<Rightarrow> item" where
  \<comment> \<open>\<^verbatim>\<open>Item(**data.dict())\<close>: an unsaved object; the key and the coordinates are assigned
      on save and stand at 0 until then.\<close>
  "Item data =
     \<lparr>pk = 0, name = Some (c_name data), description = c_description data, qr_code = None,
      parent_id = c_parent_id data, tree_id = 0, lft = 0, rght = 0, level = 0\<rparr>"

definition create_item_body ::
  "(store \<Rightarrow> item \<Rightarrow> field_errors) \<Rightarrow> ItemCreate \<Rightarrow> (int \<times> item) txn" where
  "create_item_body full_clean data s =
     (case (case c_parent_id data of
              None \<Rightarrow> Inr ()
            | Some p \<Rightarrow>
                if p \<noteq> 0
                then (case objects_get (items s) p of
                        Inl DoesNotExist \<Rightarrow> Inl (HttpError 404 (Message ''Parent item not found''))
                      | Inl e \<Rightarrow> Inl e
                      | Inr parent \<Rightarrow> Inr ())
                else Inr ()) of
        Inl e \<Rightarrow> (Inl e, s)
      | Inr _ \<Rightarrow>
          (case full_clean s (Item data) of
             e # es \<Rightarrow> (Inl (ValidationError (e # es)), s)
           | [] \<Rightarrow>
               (case insert_node (items s) (Item data) of
                  Inl e \<Rightarrow> (Inl e, s)
                | Inr (saved, tbl) \<Rightarrow> (Inr (201, saved), s\<lparr>items := tbl\<rparr>))))"

definition create_item ::
  "(store \<Rightarrow> item \<Rightarrow> field_errors) \<Rightarrow> ItemCreate \<Rightarrow> (int \<times> item) txn" where
  "create_item full_clean data s =
     (case atomic (create_item_body full_clean data) s of
        (Inl (ValidationError e), s') \<Rightarrow> (Inl (HttpError 400 (FieldErrors e)), s')
      | r \<Rightarrow> r)"

definition data_parent_id :: "ItemUpdate \<Rightarrow> int option" where
  \<comment> \<open>Reading \<^verbatim>\<open>data.parent_id\<close>: unset and null both read as \<^verbatim>\<open>None\<close>.\<close>
  "data_parent_id data = (case u_parent_id data of None \<Rightarrow> None | Some v \<Rightarrow> v)"

definition put_attrs :: "ItemUpdate \<Rightarrow> item \<Rightarrow> item" where
  \<comment> \<open>The \<^verbatim>\<open>setattr\<close> loop of \<^verbatim>\<open>update_item\<close> over the fields that were sent.\<close>
  "put_attrs data obj =
     (let o1 = (case u_name data of None \<Rightarrow> obj | Some v \<Rightarrow> obj\<lparr>name := v\<rparr>);
          o2 = (case u_description data of None \<Rightarrow> o1 | Some v \<Rightarrow> o1\<lparr>description := v\<rparr>)
      in (case u_parent_id data of None \<Rightarrow> o2 | Some v \<Rightarrow> o2\<lparr>parent_id := v\<rparr>))"

definition patch_attrs :: "ItemUpdate \<Rightarrow> item \<Rightarrow> item" where
  \<comment> \<open>The loop of \<^verbatim>\<open>partial_update_item\<close>: only values that are not \<^verbatim>\<open>None\<close>.\<close>
  "patch_attrs data obj =
     (let o1 = (case u_name data of Some (Some v) \<Rightarrow> obj\<lparr>name := Some v\<rparr> | _ \<Rightarrow> obj);
          o2 = (case u_description data of Some (Some v) \<Rightarrow> o1\<lparr>description := Some v\<rparr> | _ \<Rightarrow> o1)
      in (case u_parent_id data of Some (Some v) \<Rightarrow> o2\<lparr>parent_id := Some v\<rparr> | _ \<Rightarrow> o2))"

definition update_body ::
  "(ItemUpdate \<Rightarrow> item \<Rightarrow> item) \<Rightarrow> (store \<Rightarrow> item \<Rightarrow> field_errors) \<Rightarrow> int \<Rightarrow> ItemUpdate \<Rightarrow> item txn"
  where
  \<comment> \<open>The two update endpoints have the same body up to the \<^verbatim>\<open>setattr\<close> loop.\<close>
  "update_body set_attrs full_clean iid data s =
     (case objects_get (items s) iid of
        Inl e \<Rightarrow> (Inl e, s)
      | Inr obj \<Rightarrow>
          (case (case data_parent_id data of
                   None \<Rightarrow> Inr ()
                 | Some p \<Rightarrow>
                     (case validate_parent_relationship (items s) obj p of
                        Inl e \<Rightarrow> Inl e
                      | Inr parent \<Rightarrow> Inr ())) of
             Inl e \<Rightarrow> (Inl e, s)
           | Inr _ \<Rightarrow>
               (case full_clean s (set_attrs data obj) of
                  e # es \<Rightarrow> (Inl (ValidationError (e # es)), s)
                | [] \<Rightarrow>
                    (case save_item (items s) (set_attrs data obj) of
                       Inl e \<Rightarrow> (Inl e, s)
                     | Inr (saved, tbl) \<Rightarrow> (Inr saved, s\<lparr>items := tbl\<rparr>)))))"

definition update_handlers :: "(exn + 'a) \<times> store \<Rightarrow> (exn + 'a) \<times> store" where
  \<comment> \<open>The two \<^verbatim>\<open>except\<close> clauses shared by the update endpoints.\<close>
  "update_handlers r =
     (case r of
        (Inl DoesNotExist, s') \<Rightarrow> (Inl (HttpError 404 (Message ''Item not found'')), s')
      | (Inl (ValidationError e), s') \<Rightarrow> (Inl (HttpError 400 (FieldErrors e)), s')
      | _ \<Rightarrow> r)"

definition update_item ::
  "(store \<Rightarrow> item \<Rightarrow> field_errors) \<Rightarrow> int \<Rightarrow> ItemUpdate \<Rightarrow> item txn" where
  "update_item full_clean iid data s =
     update_handlers (atomic (update_body put_attrs full_clean iid data) s)"

definition partial_update_item ::
  "(store \<Rightarrow> item \<Rightarrow> field_errors) \<Rightarrow> int \<Rightarrow> ItemUpdate \<Rightarrow> item txn" where
  "partial_update_item full_clean iid data s =
     update_handlers (atomic (update_body patch_attrs full_clean iid data) s)"

definition change_parent_body :: "int \<Rightarrow> ItemUpdate \<Rightarrow> item txn" where
  "change_parent_body iid data s =
     (case objects_get (items s) iid of
        Inl e \<Rightarrow> (Inl e, s)
      | Inr obj \<Rightarrow>
          (case item_parent (items s) obj of
             Inl e \<Rightarrow> (Inl e, s)
           | Inr old_parent \<Rightarrow>
               (case (case data_parent_id data of
                        None \<Rightarrow> Inr None
                      | Some p \<Rightarrow>
                          (case validate_parent_relationship (items s) obj p of
                             Inl e \<Rightarrow> Inl e
                           | Inr parent \<Rightarrow> Inr (Some parent))) of
                  Inl e \<Rightarrow> (Inl e, s)
                | Inr new_parent \<Rightarrow>
                    (let s1 = s\<lparr>items := move_to (items s) obj new_parent\<rparr>
                     in (case objects_get (items s1) (pk obj) of
                           Inl e \<Rightarrow> (Inl e, s1)
                         | Inr refreshed \<Rightarrow>
                             (Inr refreshed,
                              ComponentHistory_create s1 refreshed old_parent new_parent))))))"

definition change_parent :: "int \<Rightarrow> ItemUpdate \<Rightarrow> item txn" where
  "change_parent iid data s =
     (case atomic (change_parent_body iid data) s of
        (Inl DoesNotExist, s') \<Rightarrow> (Inl (HttpError 404 (Message ''Item not found'')), s')
      | r \<Rightarrow> r)"

subsection \<open>Search\<close>

definition ascii_lower :: "char \<Rightarrow> char" where
  "ascii_lower c =
     (let n = (of_char c :: nat) in if 65 \<le> n \<and> n \<le> 90 then char_of (n + 32) else c)"

definition icontains :: "string option \<Rightarrow> string \<Rightarrow> bool" where
  \<comment> \<open>Modelled from the spec: the substring predicate of \<^verbatim>\<open>search\<close> (section 4.3), which
      the source asks for as \<^verbatim>\<open>__icontains\<close>: containment regardless of the case of
      ASCII letters; a null column matches nothing.\<close>
  "icontains field needle =
     (case field of
        None \<Rightarrow> False
      | Some v \<Rightarrow> sublist (map ascii_lower needle) (map ascii_lower v))"

text \<open>A \<^verbatim>\<open>Q\<close> object and an unevaluated queryset are both a condition on rows;
  \<^verbatim>\<open>|\<close> is the disjunction of the conditions, and evaluating a queryset filters the
  table.\<close>

type_synonym Q = "item \<Rightarrow> bool"

definition Q_or :: "Q \<Rightarrow> Q \<Rightarrow> Q" where
  "Q_or p q = (\<lambda>r. p r \<or> q r)"

definition Q_none :: Q where
  "Q_none = (\<lambda>r. False)"

definition search_filters :: "string option \<Rightarrow> string option \<Rightarrow> string option \<Rightarrow> Q list" where
  \<comment> \<open>\<^verbatim>\<open>if qr_code:\<close> and its two siblings: \<^verbatim>\<open>None\<close> and the empty string add no filter.\<close>
  "search_filters q_code q_name q_description =
     (case q_code of
        None \<Rightarrow> []
      | Some c \<Rightarrow> if c \<noteq> [] then [\<lambda>r. qr_code r = Some c] else []) @
     (case q_name of
        None \<Rightarrow> []
      | Some n \<Rightarrow> if n \<noteq> [] then [\<lambda>r. icontains (name r) n] else []) @
     (case q_description of
        None \<Rightarrow> []
      | Some d \<Rightarrow> if d \<noteq> [] then [\<lambda>r. icontains (description r) d] else [])"

definition descendant_filter :: "item \<Rightarrow> Q" where
  "descendant_filter obj = (\<lambda>r. tree_id r = tree_id obj \<and> lft obj < lft r \<and> rght r < rght obj)"

definition search_items ::
  "item list \<Rightarrow> string option \<Rightarrow> string option \<Rightarrow> string option \<Rightarrow> item list" where
  "search_items tbl q_code q_name q_description =
     (case search_filters q_code q_name q_description of
        [] \<Rightarrow> []
      | f # fs \<Rightarrow>
          (let direct_matches = filter (foldl Q_or f fs) tbl;
               all_items =
                 foldl (\<lambda>acc obj. Q_or acc (Q_or (\<lambda>r. pk r = pk obj) (descendant_filter obj)))
                   Q_none direct_matches
           in remdups (filter all_items tbl)))"

subsection \<open>Attachments\<close>

definition startswith :: "string \<Rightarrow> string list \<Rightarrow> bool" where
  \<comment> \<open>\<^verbatim>\<open>str.startswith\<close> with a tuple: some element is a prefix.\<close>
  "startswith s ps = list_ex (\<lambda>p. prefix p s) ps"

definition next_attachment_id :: "Attachment list \<Rightarrow> int" where
  \<comment> \<open>Modelled from the spec: the identity source, for attachment rows.\<close>
  "next_attachment_id as = foldr max (map att_id as) 0 + 1"

definition create_attachment_body ::
  "(store \<Rightarrow> Attachment \<Rightarrow> field_errors) \<Rightarrow> int \<Rightarrow> UploadedFile \<Rightarrow> (int \<times> Attachment) txn"
  where
  "create_attachment_body full_clean iid file s =
     (case objects_get (items s) iid of
        Inl e \<Rightarrow> (Inl e, s)
      | Inr obj \<Rightarrow>
          if \<not> startswith (content_type file) [''image/'', ''application/'', ''text/'']
          then (Inl (ValidationError [(''file'', [''Unsupported file type''])]), s)
          else if 10 * 1024 * 1024 < size file
          then (Inl (ValidationError [(''file'', [''File size exceeds 10MB limit''])]), s)
          else
            (let attachment = \<lparr>att_id = 0, att_item = pk obj, att_file = file,
                               att_type = content_type file\<rparr>
             in (case full_clean s attachment of
                   e # es \<Rightarrow> (Inl (ValidationError (e # es)), s)
                 | [] \<Rightarrow>
                     (let saved = attachment\<lparr>att_id := next_attachment_id (attachments s)\<rparr>
                      in (Inr (201, saved), s\<lparr>attachments := attachments s @ [saved]\<rparr>)))))"

definition create_attachment ::
  "(store \<Rightarrow> Attachment \<Rightarrow> field_errors) \<Rightarrow> int \<Rightarrow> UploadedFile \<Rightarrow> (int \<times> Attachment) txn"
  where
  "create_attachment full_clean iid file s =
     (case atomic (create_attachment_body full_clean iid file) s of
        (Inl DoesNotExist, s') \<Rightarrow> (Inl (HttpError 404 (Message ''Item not found'')), s')
      | (Inl (ValidationError e), s') \<Rightarrow> (Inl (HttpError 400 (FieldErrors e)), s')
      | r \<Rightarrow> r)"

section \<open>The specification's side\<close>

text \<open>
  The invariants of section 3 that the query results depend on: unique ids, invariant 1
  (\<^verbatim>\<open>left_bound < right_bound\<close>), invariant 2 (two intervals of one forest are disjoint or
  one strictly contains the other) and the second half of invariant 3 (a root's interval
  contains every other interval of its forest).
\<close>

definition well_formed :: "item list \<Rightarrow> bool" where
  \<comment> \<open>Modelled from the spec: invariants 1, 2 and 3 of section 3, over a table whose ids
      are unique.\<close>
  "well_formed tbl \<longleftrightarrow>
     distinct (map pk tbl) \<and>
     (\<forall>a\<in>set tbl. lft a < rght a) \<and>
     (\<forall>a\<in>set tbl. \<forall>b\<in>set tbl. tree_id a = tree_id b \<and> pk a \<noteq> pk b \<longrightarrow>
        rght a < lft b \<or> rght b < lft a \<or>
        (lft a < lft b \<and> rght b < rght a) \<or> (lft b < lft a \<and> rght a < rght b)) \<and>
     (\<forall>a\<in>set tbl. \<forall>b\<in>set tbl. parent_id a = None \<and> tree_id a = tree_id b \<and> pk a \<noteq> pk b \<longrightarrow>
        lft a < lft b \<and> rght b < rght a)"

definition direct_hit :: "string option \<Rightarrow> string option \<Rightarrow> string option \<Rightarrow> item \<Rightarrow> bool" where
  \<comment> \<open>Modelled from the spec: a node matches the predicate of \<^verbatim>\<open>search\<close> (section 4.3) when
      it matches one of the predicates supplied: exact external code, name substring,
      description substring.\<close>
  "direct_hit q_code q_name q_description r \<longleftrightarrow>
     (case q_code of None \<Rightarrow> False | Some c \<Rightarrow> c \<noteq> [] \<and> qr_code r = Some c) \<or>
     (case q_name of None \<Rightarrow> False | Some n \<Rightarrow> n \<noteq> [] \<and> icontains (name r) n) \<or>
     (case q_description of None \<Rightarrow> False | Some d \<Rightarrow> d \<noteq> [] \<and> icontains (description r) d)"

definition search_spec ::
  "item list \<Rightarrow> string option \<Rightarrow> string option \<Rightarrow> string option \<Rightarrow> item set" where
  \<comment> \<open>Modelled from the spec: the result of \<^verbatim>\<open>search\<close> (section 4.3), the union over the
      direct hits of the hit and the nodes of its forest whose interval is strictly inside
      the hit's.\<close>
  "search_spec tbl q_code q_name q_description =
     (\<Union>h \<in> {h \<in> set tbl. direct_hit q_code q_name q_description h}.
        {r \<in> set tbl. pk r = pk h \<or>
                       (tree_id r = tree_id h \<and> lft h < lft r \<and> rght r < rght h)})"

text \<open>
  Validation. The field declarations of the model module are not in the sources; they are
  taken as a list of checks, each a field name and a function that returns the message of
  the problem it finds, if any. Section 7 of the specification says what the validation
  makes of them.
\<close>

type_synonym 'a field_check = "string \<times> (store \<Rightarrow> 'a \<Rightarrow> string option)"

fun field_problems :: "'a field_check list \<Rightarrow> store \<Rightarrow> 'a \<Rightarrow> string \<Rightarrow> string list" where
  \<comment> \<open>Modelled from the spec: the list of messages of one field (section 7, "field-keyed
      list of messages"): every problem found by a check of that field, in the order of the
      checks.\<close>
  "field_problems [] s obj f = []"
| "field_problems ((g, chk) # cs) s obj f =
     (if g = f then (case chk s obj of None \<Rightarrow> [] | Some m \<Rightarrow> [m]) else []) @
     field_problems cs s obj f"

definition full_clean_spec :: "'a field_check list \<Rightarrow> store \<Rightarrow> 'a \<Rightarrow> field_errors" where
  \<comment> \<open>Modelled from the spec: \<^verbatim>\<open>full_clean()\<close>, whose error dictionary "aggregates all field
      problems in one response rather than failing on the first" (section 7): every field
      with a problem, once, with the list of all its messages; empty when there is none.\<close>
  "full_clean_spec cs s obj =
     map (\<lambda>f. (f, field_problems cs s obj f))
       (filter (\<lambda>f. field_problems cs s obj f \<noteq> []) (rev (remdups (rev (map fst cs)))))"

section \<open>A sample store\<close>

text \<open>The scenario of the specification's section 8: the root "Warehouse", "Shelf-A"
  under it and "Bin-1" under the shelf.\<close>

definition warehouse :: item where
  "warehouse = \<lparr>pk = 1, name = Some ''Warehouse'', description = None, qr_code = Some ''WH-1'',
                parent_id = None, tree_id = 1, lft = 1, rght = 6, level = 0\<rparr>"

definition shelf_a :: item where
  "shelf_a = \<lparr>pk = 2, name = Some ''Shelf-A'', description = Some ''steel shelf'',
              qr_code = Some ''SH-A'', parent_id = Some 1, tree_id = 1, lft = 2, rght = 5,
              level = 1\<rparr>"

definition bin_1 :: item where
  "bin_1 = \<lparr>pk = 3, name = Some ''Bin-1'', description = None, qr_code = Some ''BIN-1'',
            parent_id = Some 2, tree_id = 1, lft = 3, rght = 4, level = 2\<rparr>"

definition sample_store :: store where
  "sample_store = \<lparr>items = [warehouse, shelf_a, bin_1], history = [], attachments = []\<rparr>"

definition accept_all :: "store \<Rightarrow> 'a \<Rightarrow> field_errors" where
  \<comment> \<open>A validation that finds no problem.\<close>
  "accept_all s obj = []"

text \<open>Sample field checks: three on the name and one on the description of an item, one
  on the type of an attachment.\<close>

definition name_not_null :: "store \<Rightarrow> item \<Rightarrow> string option" where
  "name_not_null s obj =
     (case name obj of None \<Rightarrow> Some ''This field cannot be null.'' | Some n \<Rightarrow> None)"

definition name_not_blank :: "store \<Rightarrow> item \<Rightarrow> string option" where
  "name_not_blank s obj =
     (case name obj of
        None \<Rightarrow> None
      | Some n \<Rightarrow> if n = [] then Some ''This field cannot be blank.'' else None)"

definition name_min_length :: "store \<Rightarrow> item \<Rightarrow> string option" where
  "name_min_length s obj =
     (case name obj of
        None \<Rightarrow> None
      | Some n \<Rightarrow> if length n < 3 then Some ''Ensure this value has at least 3 characters.''
                  else None)"

definition description_not_blank :: "store \<Rightarrow> item \<Rightarrow> string option" where
  "description_not_blank s obj =
     (case description obj of
        None \<Rightarrow> None
      | Some d \<Rightarrow> if d = [] then Some ''This field cannot be blank.'' else None)"

definition sample_checks :: "item field_check list" where
  "sample_checks =
     [(''name'', name_not_null), (''name'', name_not_blank),
      (''description'', description_not_blank), (''name'', name_min_length)]"

definition type_max_length :: "store \<Rightarrow> Attachment \<Rightarrow> string option" where
  "type_max_length s a =
     (if 20 < length (att_type a) then Some ''Ensure this value has at most 20 characters.''
      else None)"

definition sample_attachment_checks :: "Attachment field_check list" where
  "sample_attachment_checks = [(''type'', type_max_length)]"

section \<open>Auxiliary facts\<close>

lemma objects_get_Inr: "objects_get tbl i = Inr r \<Longrightarrow> pk r = i \<and> r \<in> set tbl"
  by (auto simp: objects_get_def find_Some_iff split: option.splits)

lemma objects_get_Inl: "objects_get tbl i = Inl e \<Longrightarrow> e = DoesNotExist"
  by (auto simp: objects_get_def split: option.splits)

lemmas sample_defs = sample_store_def warehouse_def shelf_a_def bin_1_def

lemma item_parent_Inr: "item_parent tbl obj = Inr op \<Longrightarrow> map_option pk op = parent_id obj"
  by (auto simp: item_parent_def split: option.splits sum.splits dest: objects_get_Inr)

lemma validate_Inr: "validate_parent_relationship tbl obj p = Inr parent \<Longrightarrow> pk parent = p"
  by (auto simp: validate_parent_relationship_def split: sum.splits exn.splits if_splits dest: objects_get_Inr)

lemma atomic_Inl: "atomic body s = (Inl e, s') \<Longrightarrow> s' = s"
  by (auto simp: atomic_def split: prod.splits sum.splits)

lemma atomic_Inr: "atomic body s = (Inr v, s') \<Longrightarrow> body s = (Inr v, s')"
  by (auto simp: atomic_def split: prod.splits sum.splits)

lemma change_parent_body_Inr:
  assumes "change_parent_body iid data s = (Inr obj, s')"
  shows "\<exists>old. objects_get (items s) iid = Inr old \<and>
           history s' = history s @
             [\<lparr>hr_id = next_history_id (history s), hr_item = Some iid,
               hr_old_parent = parent_id old, hr_new_parent = data_parent_id data\<rparr>]"
proof -
  from assms obtain old where old: "objects_get (items s) iid = Inr old"
    by (cases "objects_get (items s) iid") (auto simp: change_parent_body_def)
  then have k: "pk old = iid" by (simp add: objects_get_Inr)
  from assms old obtain op where op: "item_parent (items s) old = Inr op"
    by (cases "item_parent (items s) old") (auto simp: change_parent_body_def)
  have opk: "map_option pk op = parent_id old" using op by (rule item_parent_Inr)
  show ?thesis
  proof (cases "data_parent_id data")
    case None
    with assms old op opk k show ?thesis
      by (auto simp: change_parent_body_def Let_def ComponentHistory_create_def
          split: sum.splits dest: objects_get_Inr)
  next
    case (Some p)
    with assms old op obtain parent where v: "validate_parent_relationship (items s) old p = Inr parent"
      by (cases "validate_parent_relationship (items s) old p") (auto simp: change_parent_body_def)
    then have "pk parent = p" by (rule validate_Inr)
    with Some v assms old op opk k show ?thesis
      by (auto simp: change_parent_body_def Let_def ComponentHistory_create_def
          split: sum.splits dest: objects_get_Inr)
  qed
qed

lemma change_parent_history:
  assumes "change_parent iid data s = (r, s')"
  shows "(case r of
        Inl e \<Rightarrow> s' = s
      | Inr obj \<Rightarrow>
          (\<exists>old. objects_get (items s) iid = Inr old \<and>
             history s' = history s @
               [\<lparr>hr_id = next_history_id (history s), hr_item = Some iid,
                 hr_old_parent = parent_id old, hr_new_parent = data_parent_id data\<rparr>]))"
proof (cases "atomic (change_parent_body iid data) s")
  case (Pair a t)
  show ?thesis
  proof (cases a)
    case (Inl e)
    with Pair have "t = s" by (auto dest: atomic_Inl)
    with Pair Inl assms show ?thesis
      by (auto simp: change_parent_def split: exn.splits)
  next
    case (Inr obj)
    with Pair have "change_parent_body iid data s = (Inr obj, t)" by (auto dest: atomic_Inr)
    from change_parent_body_Inr [OF this] Pair Inr assms show ?thesis
      by (auto simp: change_parent_def)
  qed
qed

lemma validate_circular:
  assumes "objects_get tbl p = Inr P" "pk P = pk N \<or> is_ancestor_of N P"
  shows "validate_parent_relationship tbl N p = Inl (HttpError 400 (Message ''Circular dependency detected''))"
  using assms by (auto simp: validate_parent_relationship_def)

lemma update_body_invalid:
  assumes "objects_get (items s) iid = Inr obj"
    and "\<forall>p. data_parent_id upd = Some p \<longrightarrow> (\<exists>parent. validate_parent_relationship (items s) obj p = Inr parent)"
    and "full_clean s (f upd obj) \<noteq> []"
  shows "update_body f full_clean iid upd s = (Inl (ValidationError (full_clean s (f upd obj))), s)"
proof (cases "data_parent_id upd")
  case None
  with assms(1,3) show ?thesis
    by (simp add: update_body_def split: list.splits)
next
  case (Some p)
  with assms(2) obtain parent where "validate_parent_relationship (items s) obj p = Inr parent" by blast
  with Some assms(1,3) show ?thesis
    by (simp add: update_body_def split: list.splits)
qed

lemma foldl_Q_or: "foldl Q_or f fs r \<longleftrightarrow> f r \<or> (\<exists>q\<in>set fs. q r)"
proof (induction fs arbitrary: f)
  case Nil
  show ?case by simp
next
  case (Cons a fs)
  have "foldl Q_or f (a # fs) r = foldl Q_or (Q_or f a) fs r" by simp
  also have "\<dots> \<longleftrightarrow> Q_or f a r \<or> (\<exists>q\<in>set fs. q r)" by (rule Cons.IH)
  also have "\<dots> \<longleftrightarrow> f r \<or> (\<exists>q\<in>set (a # fs). q r)" by (auto simp: Q_or_def)
  finally show ?case .
qed

lemma foldl_Q_or_each:
  "foldl (\<lambda>acc obj. Q_or acc (g obj)) q0 xs r \<longleftrightarrow> q0 r \<or> (\<exists>h\<in>set xs. g h r)"
proof (induction xs arbitrary: q0)
  case Nil
  show ?case by simp
next
  case (Cons a xs)
  have "foldl (\<lambda>acc obj. Q_or acc (g obj)) q0 (a # xs) r =
        foldl (\<lambda>acc obj. Q_or acc (g obj)) (Q_or q0 (g a)) xs r" by simp
  also have "\<dots> \<longleftrightarrow> Q_or q0 (g a) r \<or> (\<exists>h\<in>set xs. g h r)" by (rule Cons.IH)
  also have "\<dots> \<longleftrightarrow> q0 r \<or> (\<exists>h\<in>set (a # xs). g h r)" by (auto simp: Q_or_def)
  finally show ?case .
qed

lemma bex_append: "(\<exists>q\<in>set (xs @ ys). q r) \<longleftrightarrow> (\<exists>q\<in>set xs. q r) \<or> (\<exists>q\<in>set ys. q r)"
  by (simp add: bex_Un)

lemma bex_optional_filter:
  "(\<exists>q\<in>set (case v of None \<Rightarrow> [] | Some c \<Rightarrow> if c \<noteq> [] then [g c] else []). q r) \<longleftrightarrow>
     (case v of None \<Rightarrow> False | Some c \<Rightarrow> c \<noteq> [] \<and> g c r)"
  by (cases v) simp_all

lemma search_filters_hit:
  "(\<exists>q\<in>set (search_filters q_code q_name q_description). q r) \<longleftrightarrow>
     direct_hit q_code q_name q_description r"
  unfolding search_filters_def direct_hit_def bex_append
  by (simp only: bex_optional_filter [where v = q_code and g = "\<lambda>c r. qr_code r = Some c"]
      bex_optional_filter [where v = q_name and g = "\<lambda>n r. icontains (name r) n"]
      bex_optional_filter [where v = q_description and g = "\<lambda>d r. icontains (description r) d"])

lemma search_items_iff:
  "r \<in> set (search_items tbl q_code q_name q_description) \<longleftrightarrow>
     r \<in> set tbl \<and>
     (\<exists>h\<in>set tbl. direct_hit q_code q_name q_description h \<and>
        (pk r = pk h \<or> tree_id r = tree_id h \<and> lft h < lft r \<and> rght r < rght h))"
proof (cases "search_filters q_code q_name q_description")
  case Nil
  then have "\<not> direct_hit q_code q_name q_description h" for h
    using search_filters_hit [of q_code q_name q_description h] by simp
  with Nil show ?thesis by (simp add: search_items_def)
next
  case (Cons f fs)
  have d: "foldl Q_or f fs h \<longleftrightarrow> direct_hit q_code q_name q_description h" for h
    using search_filters_hit [of q_code q_name q_description h] Cons
    by (simp add: foldl_Q_or)
  have m: "foldl (\<lambda>acc obj. Q_or acc (Q_or (\<lambda>r. pk r = pk obj) (descendant_filter obj))) Q_none xs r
      \<longleftrightarrow> (\<exists>h\<in>set xs. pk r = pk h \<or> tree_id r = tree_id h \<and> lft h < lft r \<and> rght r < rght h)" for xs
    by (simp add: foldl_Q_or_each Q_none_def) (simp add: Q_or_def descendant_filter_def)
  show ?thesis
    by (simp add: search_items_def Cons Let_def m d) blast
qed

lemma icontains_shelf:
  "\<not> icontains (name warehouse) ''shelf''" "icontains (name shelf_a) ''shelf''"
  "\<not> icontains (name bin_1) ''shelf''"
  by (simp_all add: icontains_def ascii_lower_def char_of_def bit_Suc_0_iff warehouse_def
      shelf_a_def bin_1_def sublist_Cons_right)

lemma sort_key_starts_with_min:
  fixes f :: "'a \<Rightarrow> int"
  assumes "x \<in> set xs" and "\<forall>y\<in>set xs. y \<noteq> x \<longrightarrow> f x < f y"
  shows "\<exists>rest. sort_key f xs = x # rest"
proof (cases "sort_key f xs")
  case Nil
  then have "set (sort_key f xs) = {}" by simp
  with assms(1) show ?thesis by simp
next
  case (Cons y rest)
  have s: "sorted (map f (y # rest))" using sorted_sort_key [of f xs] Cons by simp
  have m: "set (y # rest) = set xs" using set_sort [of f xs] Cons by simp
  have "y = x"
  proof (rule ccontr)
    assume n: "y \<noteq> x"
    from m have "y \<in> set xs" by auto
    with n assms(2) have lt: "f x < f y" by blast
    from m assms(1) n have "x \<in> set rest" by auto
    with s have "f y \<le> f x" by auto
    with lt show False by simp
  qed
  with Cons show ?thesis by simp
qed

lemma sort_key_ends_with_max:
  fixes f :: "'a \<Rightarrow> int"
  assumes "x \<in> set xs" and "\<forall>y\<in>set xs. y \<noteq> x \<longrightarrow> f y < f x"
  shows "sort_key f xs \<noteq> [] \<and> last (sort_key f xs) = x"
proof -
  let ?ys = "sort_key f xs"
  have m: "set ?ys = set xs" by simp
  have ne: "?ys \<noteq> []"
  proof
    assume "?ys = []"
    from arg_cong [OF this, of set] have "set xs = {}" by simp
    with assms(1) show False by simp
  qed
  then have dec: "?ys = butlast ?ys @ [last ?ys]" by simp
  have "sorted (map f ?ys)" by (rule sorted_sort_key)
  then have "sorted (map f (butlast ?ys @ [last ?ys]))" using dec by simp
  then have le: "\<forall>a\<in>set (butlast ?ys). f a \<le> f (last ?ys)"
    by (simp add: sorted_append)
  have "last ?ys = x"
  proof (rule ccontr)
    assume n: "last ?ys \<noteq> x"
    have "last ?ys \<in> set xs" using ne m last_in_set by blast
    with n assms(2) have lt: "f (last ?ys) < f x" by blast
    have "x \<in> set (butlast ?ys @ [last ?ys])" using dec m assms(1) by simp
    with n have "x \<in> set (butlast ?ys)" by auto
    with le have "f x \<le> f (last ?ys)" by blast
    with lt show False by simp
  qed
  with ne show ?thesis by simp
qed

lemma sort_key_strictly_increasing:
  fixes f :: "'a \<Rightarrow> int"
  assumes "distinct xs" and "inj_on f (set xs)"
  shows "sorted_wrt (\<lambda>a b. f a < f b) (sort_key f xs)"
proof -
  have "distinct (map f (sort_key f xs))"
    using assms by (simp add: distinct_map)
  moreover have "sorted (map f (sort_key f xs))" by (rule sorted_sort_key)
  ultimately have "sorted_wrt (<) (map f (sort_key f xs))"
    by (simp add: strict_sorted_iff)
  then show ?thesis by (simp add: sorted_wrt_map)
qed

lemma well_formed_pk_inj:
  assumes "well_formed tbl" "a \<in> set tbl" "b \<in> set tbl" "pk a = pk b"
  shows "a = b"
proof -
  from assms(1) have "inj_on pk (set tbl)" by (simp add: well_formed_def distinct_map)
  with assms(2-4) show ?thesis by (simp add: inj_on_eq_iff)
qed

lemma well_formed_bounds: "well_formed tbl \<Longrightarrow> a \<in> set tbl \<Longrightarrow> lft a < rght a"
  by (simp add: well_formed_def)

lemma well_formed_nested:
  assumes "well_formed tbl" "a \<in> set tbl" "b \<in> set tbl" "tree_id a = tree_id b" "a \<noteq> b"
  shows "rght a < lft b \<or> rght b < lft a \<or>
         (lft a < lft b \<and> rght b < rght a) \<or> (lft b < lft a \<and> rght a < rght b)"
proof -
  from assms have "pk a \<noteq> pk b" using well_formed_pk_inj by blast
  with assms show ?thesis unfolding well_formed_def by blast
qed

lemma well_formed_root:
  assumes "well_formed tbl" "a \<in> set tbl" "b \<in> set tbl" "tree_id a = tree_id b" "a \<noteq> b"
    "parent_id a = None"
  shows "lft a < lft b \<and> rght b < rght a"
proof -
  from assms have "pk a \<noteq> pk b" using well_formed_pk_inj by blast
  with assms show ?thesis unfolding well_formed_def by blast
qed

lemma descendant_is_ancestor_of:
  assumes wf: "well_formed tbl" and N: "N \<in> set tbl"
    and P: "P \<in> set (get_descendants tbl N True)"
  shows "P = N \<or> is_ancestor_of N P"
proof (cases "P = N")
  case True
  then show ?thesis by simp
next
  case False
  from P have Pt: "P \<in> set tbl" and t: "tree_id P = tree_id N" and l: "lft N \<le> lft P"
    and r: "lft P \<le> rght N" by (auto simp: get_descendants_def)
  have b: "lft P < rght P" using wf Pt by (rule well_formed_bounds)
  from well_formed_nested [OF wf Pt N t False] l r b
  have "lft N < lft P \<and> rght P < rght N" by linarith
  with t b show ?thesis by (simp add: is_ancestor_of_def)
qed

lemma sample_wf: "well_formed (items sample_store)"
  by (simp add: well_formed_def sample_store_def warehouse_def shelf_a_def bin_1_def)

lemma set_field_problems:
  "m \<in> set (field_problems cs s obj f) \<longleftrightarrow> (\<exists>chk. (f, chk) \<in> set cs \<and> chk s obj = Some m)"
proof (induction cs s obj f rule: field_problems.induct)
  case (1 s obj f)
  show ?case by simp
next
  case (2 g chk cs s obj f)
  have "m \<in> set (field_problems ((g, chk) # cs) s obj f) \<longleftrightarrow>
        (g = f \<and> chk s obj = Some m) \<or> m \<in> set (field_problems cs s obj f)"
  proof (cases "g = f")
    case True
    then show ?thesis by (cases "chk s obj") auto
  next
    case False
    then show ?thesis by simp
  qed
  also have "\<dots> \<longleftrightarrow> (g = f \<and> chk s obj = Some m) \<or> (\<exists>c. (f, c) \<in> set cs \<and> c s obj = Some m)"
    using "2.IH" by simp
  also have "\<dots> \<longleftrightarrow> (\<exists>c. (f, c) \<in> set ((g, chk) # cs) \<and> c s obj = Some m)"
    by auto
  finally show ?case .
qed

lemma field_problems_no_field: "f \<notin> fst ` set cs \<Longrightarrow> field_problems cs s obj f = []"
  by (induction cs) auto

lemma distinct_full_clean_spec: "distinct (map fst (full_clean_spec cs s obj))"
  by (simp add: full_clean_spec_def comp_def)

lemma map_of_keyed:
  "map_of (map (\<lambda>f. (f, h f)) ks) f = (if f \<in> set ks then Some (h f) else None)"
  by (induction ks) auto

lemma map_of_full_clean_spec:
  "map_of (full_clean_spec cs s obj) f =
     (if field_problems cs s obj f \<noteq> [] then Some (field_problems cs s obj f) else None)"
proof -
  have "field_problems cs s obj f \<noteq> [] \<Longrightarrow> f \<in> fst ` set cs"
    using field_problems_no_field [of f cs s obj] by blast
  then show ?thesis
    unfolding full_clean_spec_def map_of_keyed by auto
qed

lemma full_clean_spec_payload:
  "(\<exists>chk. (f, chk) \<in> set cs \<and> chk s obj = Some m) \<longleftrightarrow>
   (\<exists>msgs. map_of (full_clean_spec cs s obj) f = Some msgs \<and> m \<in> set msgs)"
proof
  assume "\<exists>chk. (f, chk) \<in> set cs \<and> chk s obj = Some m"
  then have m: "m \<in> set (field_problems cs s obj f)" by (simp add: set_field_problems)
  then have "field_problems cs s obj f \<noteq> []" by auto
  with m show "\<exists>msgs. map_of (full_clean_spec cs s obj) f = Some msgs \<and> m \<in> set msgs"
    by (simp add: map_of_full_clean_spec)
next
  assume "\<exists>msgs. map_of (full_clean_spec cs s obj) f = Some msgs \<and> m \<in> set msgs"
  then have "m \<in> set (field_problems cs s obj f)"
    by (auto simp: map_of_full_clean_spec split: if_splits)
  then show "\<exists>chk. (f, chk) \<in> set cs \<and> chk s obj = Some m" by (simp add: set_field_problems)
qed

lemma full_clean_spec_nonempty:
  assumes "(f, chk) \<in> set cs" "chk s obj = Some m"
  shows "full_clean_spec cs s obj \<noteq> []"
proof -
  from assms have "\<exists>msgs. map_of (full_clean_spec cs s obj) f = Some msgs \<and> m \<in> set msgs"
    using full_clean_spec_payload [of f cs s obj m] by blast
  then show ?thesis by auto
qed

lemma create_item_invalid:
  assumes a: "full_clean s (Item data) \<noteq> []"
    and b: "\<forall>p. c_parent_id data = Some p \<and> p \<noteq> 0 \<longrightarrow>
              (\<exists>parent. objects_get (items s) p = Inr parent)"
  shows "create_item full_clean data s =
           (Inl (HttpError 400 (FieldErrors (full_clean s (Item data)))), s)"
proof -
  have "create_item_body full_clean data s = (Inl (ValidationError (full_clean s (Item data))), s)"
  proof (cases "c_parent_id data")
    case None
    with a show ?thesis by (simp add: create_item_body_def split: list.splits)
  next
    case (Some p)
    show ?thesis
    proof (cases "p = 0")
      case True
      with Some a show ?thesis by (simp add: create_item_body_def split: list.splits)
    next
      case False
      with Some b obtain parent where "objects_get (items s) p = Inr parent" by blast
      with Some False a show ?thesis by (simp add: create_item_body_def split: list.splits)
    qed
  qed
  then show ?thesis by (simp add: create_item_def atomic_def)
qed

lemma update_item_invalid:
  assumes "objects_get (items s) iid = Inr obj"
    and "\<forall>p. data_parent_id upd = Some p \<longrightarrow>
           (\<exists>parent. validate_parent_relationship (items s) obj p = Inr parent)"
    and "full_clean s (put_attrs upd obj) \<noteq> []"
  shows "update_item full_clean iid upd s =
           (Inl (HttpError 400 (FieldErrors (full_clean s (put_attrs upd obj)))), s)"
proof -
  have "update_body put_attrs full_clean iid upd s =
          (Inl (ValidationError (full_clean s (put_attrs upd obj))), s)"
    using assms by (rule update_body_invalid)
  then show ?thesis by (simp add: update_item_def atomic_def update_handlers_def)
qed

lemma partial_update_item_invalid:
  assumes "objects_get (items s) iid = Inr obj"
    and "\<forall>p. data_parent_id upd = Some p \<longrightarrow>
           (\<exists>parent. validate_parent_relationship (items s) obj p = Inr parent)"
    and "full_clean s (patch_attrs upd obj) \<noteq> []"
  shows "partial_update_item full_clean iid upd s =
           (Inl (HttpError 400 (FieldErrors (full_clean s (patch_attrs upd obj)))), s)"
proof -
  have "update_body patch_attrs full_clean iid upd s =
          (Inl (ValidationError (full_clean s (patch_attrs upd obj))), s)"
    using assms by (rule update_body_invalid)
  then show ?thesis by (simp add: partial_update_item_def atomic_def update_handlers_def)
qed

section \<open>Theorems\<close>

text \<open>
  C1. The claim: every operation that changes a node's parent, the update endpoints
  included, appends exactly one history entry with the item, its old parent and its new
  parent. Evaluated on the sample store: the full update of "Bin-1" with
  \<^verbatim>\<open>parent_id = 1\<close>, and the partial update alike, moves the bin from the shelf to the
  warehouse and returns the store with its history as it was, empty; the reparent endpoint
  on the same request makes the same move and appends the entry (item 3, old parent 2,
  new parent 1).
\<close>

theorem C1_update_moves_without_history:
  "parent_id bin_1 = Some 2 \<and> history sample_store = [] \<and>
   update_item accept_all 3 \<lparr>u_name = None, u_description = None, u_parent_id = Some (Some 1)\<rparr> sample_store =
     (Inr (bin_1\<lparr>parent_id := Some 1, lft := 4, rght := 5, level := 1\<rparr>),
      sample_store\<lparr>items := [warehouse, shelf_a\<lparr>rght := 3\<rparr>,
                               bin_1\<lparr>parent_id := Some 1, lft := 4, rght := 5, level := 1\<rparr>]\<rparr>) \<and>
   partial_update_item accept_all 3 \<lparr>u_name = None, u_description = None, u_parent_id = Some (Some 1)\<rparr> sample_store =
     (Inr (bin_1\<lparr>parent_id := Some 1, lft := 4, rght := 5, level := 1\<rparr>),
      sample_store\<lparr>items := [warehouse, shelf_a\<lparr>rght := 3\<rparr>,
                               bin_1\<lparr>parent_id := Some 1, lft := 4, rght := 5, level := 1\<rparr>]\<rparr>) \<and>
   change_parent 3 \<lparr>u_name = None, u_description = None, u_parent_id = Some (Some 1)\<rparr> sample_store =
     (Inr (bin_1\<lparr>parent_id := Some 1, lft := 4, rght := 5, level := 1\<rparr>),
      sample_store\<lparr>items := [warehouse, shelf_a\<lparr>rght := 3\<rparr>,
                               bin_1\<lparr>parent_id := Some 1, lft := 4, rght := 5, level := 1\<rparr>],
                    history := [\<lparr>hr_id = 1, hr_item = Some 3, hr_old_parent = Some 2,
                                 hr_new_parent = Some 1\<rparr>]\<rparr>)"
  by (simp add: update_item_def partial_update_item_def update_handlers_def atomic_def
      update_body_def objects_get_def
      sample_defs data_parent_id_def validate_parent_relationship_def is_ancestor_of_def
      accept_all_def put_attrs_def patch_attrs_def save_item_def item_parent_def move_to_def in_interval_def
      relocate_def compact_def make_room_def width_def change_parent_def change_parent_body_def
      ComponentHistory_create_def next_history_id_def Let_def)

text \<open>
  C2. For a node N (whose own parent reference resolves) and a request naming as parent a
  node P that is N itself or a descendant of N (N is an ancestor of P by the containment
  predicate; on a well-formed table these are the rows of the descendants query with N
  included, see \<open>descendant_is_ancestor_of\<close>), the reparent endpoint and both update
  endpoints fail with HTTP 400 "Circular dependency detected" and return the store as it
  was: no parent, no coordinate and no history row changes.
\<close>

theorem C2_cycle_rejected_store_unchanged:
  assumes "objects_get (items s) n = Inr N"
    and "item_parent (items s) N = Inr old_parent"
    and "objects_get (items s) p = Inr P"
    and "pk P = pk N \<or> is_ancestor_of N P"
    and "data_parent_id data = Some p"
  shows "change_parent n data s = (Inl (HttpError 400 (Message ''Circular dependency detected'')), s) \<and>
         update_item full_clean n data s = (Inl (HttpError 400 (Message ''Circular dependency detected'')), s) \<and>
         partial_update_item full_clean n data s = (Inl (HttpError 400 (Message ''Circular dependency detected'')), s)"
proof -
  have v: "validate_parent_relationship (items s) N p = Inl (HttpError 400 (Message ''Circular dependency detected''))"
    using assms(3,4) by (rule validate_circular)
  have 1: "change_parent n data s = (Inl (HttpError 400 (Message ''Circular dependency detected'')), s)"
    using assms(1,2,5) v by (simp add: change_parent_def atomic_def change_parent_body_def)
  have 2: "update_body f full_clean n data s = (Inl (HttpError 400 (Message ''Circular dependency detected'')), s)" for f
    using assms(1,5) v by (simp add: update_body_def)
  show ?thesis using 1 2 by (simp add: update_item_def partial_update_item_def atomic_def update_handlers_def)
qed

theorem C2_cycle_rejected_store_unchanged_witness:
  "is_ancestor_of warehouse bin_1 \<and>
   change_parent 1 \<lparr>u_name = None, u_description = None, u_parent_id = Some (Some 3)\<rparr> sample_store
     = (Inl (HttpError 400 (Message ''Circular dependency detected'')), sample_store) \<and>
   update_item accept_all 1 \<lparr>u_name = None, u_description = None, u_parent_id = Some (Some 3)\<rparr> sample_store
     = (Inl (HttpError 400 (Message ''Circular dependency detected'')), sample_store) \<and>
   partial_update_item accept_all 1 \<lparr>u_name = None, u_description = None, u_parent_id = Some (Some 3)\<rparr> sample_store
     = (Inl (HttpError 400 (Message ''Circular dependency detected'')), sample_store)"
proof -
  have a: "objects_get (items sample_store) 1 = Inr warehouse"
    by (simp add: objects_get_def sample_store_def warehouse_def shelf_a_def bin_1_def)
  have b: "item_parent (items sample_store) warehouse = Inr None"
    by (simp add: item_parent_def warehouse_def)
  have c: "objects_get (items sample_store) 3 = Inr bin_1"
    by (simp add: objects_get_def sample_store_def warehouse_def shelf_a_def bin_1_def)
  have d': "is_ancestor_of warehouse bin_1"
    by (simp add: is_ancestor_of_def warehouse_def bin_1_def)
  then have d: "pk bin_1 = pk warehouse \<or> is_ancestor_of warehouse bin_1" by simp
  have e: "data_parent_id \<lparr>u_name = None, u_description = None, u_parent_id = Some (Some 3)\<rparr> = Some 3"
    by (simp add: data_parent_id_def)
  show ?thesis using C2_cycle_rejected_store_unchanged [OF a b c d e, of accept_all] d' by simp
qed

text \<open>
  C3. The claim: in flat mode every row is marked with the flat-view flag and the
  serializer consumes it, so that every item has an empty children list. Evaluated on the
  sample store: every object returned by the flat listing carries \<^verbatim>\<open>is_flat_view\<close>, the
  resolver reads \<^verbatim>\<open>_is_flat_view\<close>, and the response lists the shelf under the warehouse
  and the bin under the shelf.
\<close>

theorem C3_flat_listing_keeps_children:
  "map (\<lambda>obj. getattr obj ''is_flat_view'' False) (list_items (items sample_store) False) =
     [True, True, True] \<and>
   map (\<lambda>obj. getattr obj ''_is_flat_view'' False) (list_items (items sample_store) False) =
     [False, False, False] \<and>
   children_in_response (items sample_store) (list_items (items sample_store) False) =
     [(1, [2]), (2, [3]), (3, [])]"
  by (simp add: list_items_def children_in_response_def resolve_children_def getattr_def setattr_def
      fetched_def get_children_def sample_defs)

text \<open>
  C4. The result of a search is, as a set, the union over the rows that match one of the
  supplied predicates (exact code, name substring, description substring) of the row
  itself and the rows of its forest whose interval lies strictly inside its interval; the
  result has no duplicates, and none by id when the ids of the table are unique. With no
  predicate supplied both sides are empty.
\<close>

theorem C4_search_is_union_of_subtrees:
  "set (search_items tbl q_code q_name q_description) = search_spec tbl q_code q_name q_description \<and>
   distinct (search_items tbl q_code q_name q_description) \<and>
   (distinct (map pk tbl) \<longrightarrow> distinct (map pk (search_items tbl q_code q_name q_description)))"
proof (intro conjI impI)
  show "set (search_items tbl q_code q_name q_description) = search_spec tbl q_code q_name q_description"
    unfolding search_spec_def by (rule set_eqI) (auto simp: search_items_iff)
  show "distinct (search_items tbl q_code q_name q_description)"
    by (simp add: search_items_def Let_def split: list.splits)
next
  assume "distinct (map pk tbl)"
  then have "distinct (map pk (remdups (filter P tbl)))" for P
  proof -
    assume a: "distinct (map pk tbl)"
    then have "distinct tbl" by (simp add: distinct_map)
    then have eq: "remdups (filter P tbl) = filter P tbl" by (simp add: distinct_remdups_id)
    show ?thesis unfolding eq using a by (rule distinct_map_filter)
  qed
  then show "distinct (map pk (search_items tbl q_code q_name q_description))"
    by (simp add: search_items_def Let_def split: list.splits)
qed

theorem C4_search_is_union_of_subtrees_witness:
  "distinct (map pk (items sample_store)) \<and>
   search_items (items sample_store) None (Some ''shelf'') None = [shelf_a, bin_1] \<and>
   search_spec (items sample_store) None (Some ''shelf'') None = {shelf_a, bin_1} \<and>
   distinct (map pk (search_items (items sample_store) None (Some ''shelf'') None))"
proof -
  have d: "distinct (map pk (items sample_store))"
    by (simp add: sample_store_def warehouse_def shelf_a_def bin_1_def)
  have e: "search_items (items sample_store) None (Some ''shelf'') None = [shelf_a, bin_1]"
    by (simp add: search_items_def search_filters_def sample_store_def icontains_shelf
        Q_or_def Q_none_def descendant_filter_def)
      (simp add: warehouse_def shelf_a_def bin_1_def)
  show ?thesis
    using C4_search_is_union_of_subtrees [of "items sample_store" None "Some ''shelf''" None] d e by simp
qed

text \<open>
  C5. A search with no name, no description and no external code returns the empty
  result, whatever the table holds.
\<close>

theorem C5_search_without_predicate_is_empty: "search_items tbl None None None = []"
  by (simp add: search_items_def search_filters_def)

text \<open>
  C6. On a well-formed table and for an existing node N, the breadcrumb endpoint returns
  a non-empty sequence that ends in N, is strictly ascending in \<^verbatim>\<open>lft\<close>, is a chain (every
  element is an ancestor of every later one), holds exactly N and the ancestors of N, and
  starts with the root of N's forest.
\<close>

theorem C6_breadcrumb_root_first:
  assumes wf: "well_formed tbl" and g: "objects_get tbl n = Inr N"
  shows "\<exists>bc. get_breadcrumb tbl n = Inr bc \<and> bc \<noteq> [] \<and> last bc = N \<and>
           sorted_wrt (\<lambda>a b. lft a < lft b) bc \<and>
           sorted_wrt is_ancestor_of bc \<and>
           set bc = {r \<in> set tbl. r = N \<or> is_ancestor_of r N} \<and>
           (\<forall>R\<in>set tbl. parent_id R = None \<and> tree_id R = tree_id N \<longrightarrow> hd bc = R)"
proof -
  let ?P = "\<lambda>r. tree_id r = tree_id N \<and> lft r \<le> lft N \<and> rght N \<le> rght r"
  let ?xs = "filter ?P tbl"
  let ?bc = "sort_key lft ?xs"
  have N: "N \<in> set tbl" using g by (simp add: objects_get_Inr)
  have b: "lft N < rght N" using wf N by (rule well_formed_bounds)
  have inx: "N \<in> set ?xs" using N by simp
  have anc: "is_ancestor_of y N" if y: "y \<in> set ?xs" and ne: "y \<noteq> N" for y
  proof -
    from y have yt: "y \<in> set tbl" and t: "tree_id y = tree_id N" and l: "lft y \<le> lft N"
      and r: "rght N \<le> rght y" by auto
    from well_formed_nested [OF wf yt N t ne] l r b
    have "lft y < lft N \<and> rght N < rght y" by linarith
    with t b show ?thesis by (simp add: is_ancestor_of_def)
  qed
  have crumb: "get_breadcrumb tbl n = Inr ?bc"
    using g by (simp add: get_breadcrumb_def get_ancestors_def)
  have below: "\<forall>y\<in>set ?xs. y \<noteq> N \<longrightarrow> lft y < lft N"
    using anc by (auto simp: is_ancestor_of_def)
  have last: "?bc \<noteq> [] \<and> last ?bc = N"
    using inx below by (rule sort_key_ends_with_max)
  have dist: "distinct ?xs"
    using wf by (simp add: well_formed_def distinct_map)
  have inj: "inj_on lft (set ?xs)"
  proof (rule inj_onI)
    fix a c assume a: "a \<in> set ?xs" and c: "c \<in> set ?xs" and e: "lft a = lft c"
    show "a = c"
    proof (rule ccontr)
      assume ne: "a \<noteq> c"
      from a c have at: "a \<in> set tbl" and ct: "c \<in> set tbl" and t: "tree_id a = tree_id c" by auto
      have "lft a < rght a" "lft c < rght c"
        using wf at ct by (simp_all add: well_formed_bounds)
      with well_formed_nested [OF wf at ct t ne] e show False by linarith
    qed
  qed
  have strict: "sorted_wrt (\<lambda>a b. lft a < lft b) ?bc"
    using dist inj by (rule sort_key_strictly_increasing)
  have chain: "sorted_wrt is_ancestor_of ?bc"
  proof (rule sorted_wrt_mono_rel [OF _ strict])
    fix a c assume "a \<in> set ?bc" and "c \<in> set ?bc" and lt: "lft a < lft c"
    then have a: "a \<in> set ?xs" and c: "c \<in> set ?xs" by simp_all
    then have at: "a \<in> set tbl" and ct: "c \<in> set tbl" and t: "tree_id a = tree_id c"
      and ca: "rght N \<le> rght a" and cc: "lft c \<le> lft N" by auto
    from lt have ne: "a \<noteq> c" by auto
    have bc: "lft c < rght c" using wf ct by (rule well_formed_bounds)
    from well_formed_nested [OF wf at ct t ne] lt ca cc b bc
    have "rght c < rght a" by linarith
    with t lt bc show "is_ancestor_of a c" by (simp add: is_ancestor_of_def)
  qed
  have elems: "set ?bc = {r \<in> set tbl. r = N \<or> is_ancestor_of r N}"
  proof (rule set_eqI)
    fix r
    show "r \<in> set ?bc \<longleftrightarrow> r \<in> {r \<in> set tbl. r = N \<or> is_ancestor_of r N}"
      using anc [of r] N by (auto simp: is_ancestor_of_def)
  qed
  have root: "\<forall>R\<in>set tbl. parent_id R = None \<and> tree_id R = tree_id N \<longrightarrow> hd ?bc = R"
  proof (intro ballI impI)
    fix R assume Rt: "R \<in> set tbl" and R: "parent_id R = None \<and> tree_id R = tree_id N"
    have Rx: "R \<in> set ?xs"
    proof (cases "R = N")
      case True
      with inx show ?thesis by simp
    next
      case False
      with well_formed_root [OF wf Rt N] R have "lft R < lft N \<and> rght N < rght R" by simp
      with Rt R show ?thesis by simp
    qed
    have "\<forall>y\<in>set ?xs. y \<noteq> R \<longrightarrow> lft R < lft y"
    proof (intro ballI impI)
      fix y assume y: "y \<in> set ?xs" and ne: "y \<noteq> R"
      then have yt: "y \<in> set tbl" and t: "tree_id R = tree_id y" using R by auto
      from well_formed_root [OF wf Rt yt t] ne R show "lft R < lft y" by auto
    qed
    from sort_key_starts_with_min [OF Rx this] show "hd ?bc = R" by auto
  qed
  from crumb last strict chain elems root show ?thesis by blast
qed

theorem C6_breadcrumb_root_first_witness:
  "well_formed (items sample_store) \<and> objects_get (items sample_store) 3 = Inr bin_1 \<and>
   get_breadcrumb (items sample_store) 3 = Inr [warehouse, shelf_a, bin_1] \<and>
   (\<exists>bc. get_breadcrumb (items sample_store) 3 = Inr bc \<and> bc \<noteq> [] \<and> last bc = bin_1 \<and>
      sorted_wrt (\<lambda>a b. lft a < lft b) bc \<and> sorted_wrt is_ancestor_of bc \<and>
      set bc = {r \<in> set (items sample_store). r = bin_1 \<or> is_ancestor_of r bin_1} \<and>
      (\<forall>R\<in>set (items sample_store).
          parent_id R = None \<and> tree_id R = tree_id bin_1 \<longrightarrow> hd bc = R))"
proof -
  have g: "objects_get (items sample_store) 3 = Inr bin_1"
    by (simp add: objects_get_def sample_store_def warehouse_def shelf_a_def bin_1_def)
  have e: "get_breadcrumb (items sample_store) 3 = Inr [warehouse, shelf_a, bin_1]"
    by (simp add: get_breadcrumb_def g get_ancestors_def)
      (simp add: sample_store_def warehouse_def shelf_a_def bin_1_def)
  show ?thesis using C6_breadcrumb_root_first [OF sample_wf g] sample_wf g e by blast
qed

text \<open>
  C7. On a well-formed table and for an existing node N, the tree endpoint returns a
  sequence that starts with N, is ascending in \<^verbatim>\<open>lft\<close>, and holds, each once, exactly the
  rows of N's forest whose \<^verbatim>\<open>lft\<close> lies between \<^verbatim>\<open>N.lft\<close> and \<^verbatim>\<open>N.rght\<close>.
\<close>

theorem C7_tree_starts_with_node:
  assumes wf: "well_formed tbl" and g: "objects_get tbl n = Inr N"
  shows "\<exists>rest. get_item_tree tbl n = Inr (N # rest) \<and>
           set (N # rest) = {r \<in> set tbl. tree_id r = tree_id N \<and> lft N \<le> lft r \<and> lft r \<le> rght N} \<and>
           sorted (map lft (N # rest)) \<and> distinct (N # rest)"
proof -
  let ?xs = "filter (\<lambda>r. tree_id r = tree_id N \<and> lft N \<le> lft r \<and> lft r \<le> rght N) tbl"
  have N: "N \<in> set tbl" using g by (simp add: objects_get_Inr)
  have b: "lft N < rght N" using wf N by (rule well_formed_bounds)
  have inx: "N \<in> set ?xs" using N b by simp
  have others: "\<forall>y\<in>set ?xs. y \<noteq> N \<longrightarrow> lft N < lft y"
  proof (intro ballI impI)
    fix y assume y: "y \<in> set ?xs" and ne: "y \<noteq> N"
    then have yt: "y \<in> set tbl" and t: "tree_id y = tree_id N" and le: "lft N \<le> lft y"
      and le2: "lft y \<le> rght N" by auto
    have "lft y < rght y" using wf yt by (rule well_formed_bounds)
    with well_formed_nested [OF wf yt N t ne] b le le2 show "lft N < lft y" by linarith
  qed
  from sort_key_starts_with_min [OF inx others] obtain rest
    where r: "sort_key lft ?xs = N # rest" by blast
  have t: "get_item_tree tbl n = Inr (N # rest)"
    using g r by (simp add: get_item_tree_def get_descendants_def)
  have "set (N # rest) = set ?xs" using set_sort [of lft ?xs] r by simp
  then have s: "set (N # rest) = {r \<in> set tbl. tree_id r = tree_id N \<and> lft N \<le> lft r \<and> lft r \<le> rght N}"
    by auto
  have o: "sorted (map lft (N # rest))" using sorted_sort_key [of lft ?xs] r by simp
  have "distinct ?xs" using wf by (simp add: well_formed_def distinct_map)
  then have "distinct (N # rest)" using distinct_sort [of lft ?xs] r by simp
  with t s o show ?thesis by blast
qed

theorem C7_tree_starts_with_node_witness:
  "well_formed (items sample_store) \<and> objects_get (items sample_store) 2 = Inr shelf_a \<and>
   get_item_tree (items sample_store) 2 = Inr [shelf_a, bin_1] \<and>
   (\<exists>rest. get_item_tree (items sample_store) 2 = Inr (shelf_a # rest) \<and>
      set (shelf_a # rest) =
        {r \<in> set (items sample_store).
           tree_id r = tree_id shelf_a \<and> lft shelf_a \<le> lft r \<and> lft r \<le> rght shelf_a} \<and>
      sorted (map lft (shelf_a # rest)) \<and> distinct (shelf_a # rest))"
proof -
  have g: "objects_get (items sample_store) 2 = Inr shelf_a"
    by (simp add: objects_get_def sample_store_def warehouse_def shelf_a_def bin_1_def)
  have e: "get_item_tree (items sample_store) 2 = Inr [shelf_a, bin_1]"
    by (simp add: get_item_tree_def g get_descendants_def)
      (simp add: sample_store_def warehouse_def shelf_a_def bin_1_def)
  show ?thesis using C7_tree_starts_with_node [OF sample_wf g] sample_wf g e by blast
qed

text \<open>
  C8. With the validation of section 7 over any list of field checks: a create or update
  that reaches validation (the item to update exists, a parent named by a create exists, a
  parent named by an update exists and is neither the item nor one of its descendants) and
  of which some check finds a problem is answered with HTTP 400, the store unchanged, and
  the payload is the validation's whole error dictionary. That dictionary has each field
  once, and a message stands in the list of a field exactly when a check of that field
  finds that problem: every offending field with all its messages, not only the first.
\<close>

theorem C8_validation_errors_aggregated:
  "((\<exists>f chk m. (f, chk) \<in> set cs \<and> chk s (Item data) = Some m) \<and>
    (\<forall>p. c_parent_id data = Some p \<and> p \<noteq> 0 \<longrightarrow> (\<exists>parent. objects_get (items s) p = Inr parent)) \<longrightarrow>
      create_item (full_clean_spec cs) data s =
        (Inl (HttpError 400 (FieldErrors (full_clean_spec cs s (Item data)))), s)) \<and>
   (objects_get (items s) iid = Inr obj \<and>
    (\<forall>p. data_parent_id upd = Some p \<longrightarrow>
         (\<exists>parent. validate_parent_relationship (items s) obj p = Inr parent)) \<longrightarrow>
      ((\<exists>f chk m. (f, chk) \<in> set cs \<and> chk s (put_attrs upd obj) = Some m) \<longrightarrow>
         update_item (full_clean_spec cs) iid upd s =
           (Inl (HttpError 400 (FieldErrors (full_clean_spec cs s (put_attrs upd obj)))), s)) \<and>
      ((\<exists>f chk m. (f, chk) \<in> set cs \<and> chk s (patch_attrs upd obj) = Some m) \<longrightarrow>
         partial_update_item (full_clean_spec cs) iid upd s =
           (Inl (HttpError 400 (FieldErrors (full_clean_spec cs s (patch_attrs upd obj)))), s))) \<and>
   distinct (map fst (full_clean_spec cs s x)) \<and>
   (\<forall>f m. (\<exists>chk. (f, chk) \<in> set cs \<and> chk s x = Some m) \<longleftrightarrow>
           (\<exists>msgs. map_of (full_clean_spec cs s x) f = Some msgs \<and> m \<in> set msgs))"
proof (intro conjI impI allI)
  assume a: "(\<exists>f chk m. (f, chk) \<in> set cs \<and> chk s (Item data) = Some m) \<and>
    (\<forall>p. c_parent_id data = Some p \<and> p \<noteq> 0 \<longrightarrow> (\<exists>parent. objects_get (items s) p = Inr parent))"
  then obtain f chk m where "(f, chk) \<in> set cs" "chk s (Item data) = Some m" by blast
  then have "full_clean_spec cs s (Item data) \<noteq> []" by (rule full_clean_spec_nonempty)
  with a show "create_item (full_clean_spec cs) data s =
        (Inl (HttpError 400 (FieldErrors (full_clean_spec cs s (Item data)))), s)"
    using create_item_invalid [of "full_clean_spec cs" s data] by simp
next
  assume a: "objects_get (items s) iid = Inr obj \<and>
    (\<forall>p. data_parent_id upd = Some p \<longrightarrow>
         (\<exists>parent. validate_parent_relationship (items s) obj p = Inr parent))"
    and b: "\<exists>f chk m. (f, chk) \<in> set cs \<and> chk s (put_attrs upd obj) = Some m"
  from b obtain f chk m where "(f, chk) \<in> set cs" "chk s (put_attrs upd obj) = Some m" by blast
  then have "full_clean_spec cs s (put_attrs upd obj) \<noteq> []" by (rule full_clean_spec_nonempty)
  with a show "update_item (full_clean_spec cs) iid upd s =
           (Inl (HttpError 400 (FieldErrors (full_clean_spec cs s (put_attrs upd obj)))), s)"
    using update_item_invalid [of s iid obj upd "full_clean_spec cs"] by simp
next
  assume a: "objects_get (items s) iid = Inr obj \<and>
    (\<forall>p. data_parent_id upd = Some p \<longrightarrow>
         (\<exists>parent. validate_parent_relationship (items s) obj p = Inr parent))"
    and b: "\<exists>f chk m. (f, chk) \<in> set cs \<and> chk s (patch_attrs upd obj) = Some m"
  from b obtain f chk m where "(f, chk) \<in> set cs" "chk s (patch_attrs upd obj) = Some m" by blast
  then have "full_clean_spec cs s (patch_attrs upd obj) \<noteq> []" by (rule full_clean_spec_nonempty)
  with a show "partial_update_item (full_clean_spec cs) iid upd s =
           (Inl (HttpError 400 (FieldErrors (full_clean_spec cs s (patch_attrs upd obj)))), s)"
    using partial_update_item_invalid [of s iid obj upd "full_clean_spec cs"] by simp
next
  show "distinct (map fst (full_clean_spec cs s x))" by (rule distinct_full_clean_spec)
next
  fix f m
  show "(\<exists>chk. (f, chk) \<in> set cs \<and> chk s x = Some m) \<longleftrightarrow>
        (\<exists>msgs. map_of (full_clean_spec cs s x) f = Some msgs \<and> m \<in> set msgs)"
    by (rule full_clean_spec_payload)
qed

theorem C8_validation_errors_aggregated_witness:
  "create_item (full_clean_spec sample_checks)
      \<lparr>c_name = '''', c_description = Some '''', c_parent_id = Some 1\<rparr> sample_store =
     (Inl (HttpError 400 (FieldErrors
        [(''name'', [''This field cannot be blank.'',
                     ''Ensure this value has at least 3 characters.'']),
         (''description'', [''This field cannot be blank.''])])), sample_store) \<and>
   update_item (full_clean_spec sample_checks) 3
      \<lparr>u_name = Some None, u_description = Some (Some ''''), u_parent_id = Some (Some 1)\<rparr> sample_store =
     (Inl (HttpError 400 (FieldErrors
        [(''name'', [''This field cannot be null.'']),
         (''description'', [''This field cannot be blank.''])])), sample_store) \<and>
   partial_update_item (full_clean_spec sample_checks) 3
      \<lparr>u_name = Some (Some ''''), u_description = None, u_parent_id = Some (Some 1)\<rparr> sample_store =
     (Inl (HttpError 400 (FieldErrors
        [(''name'', [''This field cannot be blank.'',
                     ''Ensure this value has at least 3 characters.''])])), sample_store) \<and>
   map_of (full_clean_spec sample_checks sample_store
             (Item \<lparr>c_name = '''', c_description = Some '''', c_parent_id = Some 1\<rparr>)) ''name'' =
     Some [''This field cannot be blank.'', ''Ensure this value has at least 3 characters.'']"
proof -
  let ?c = "\<lparr>c_name = '''', c_description = Some '''', c_parent_id = Some 1\<rparr>"
  let ?u = "\<lparr>u_name = Some None, u_description = Some (Some ''''), u_parent_id = Some (Some 1)\<rparr>"
  let ?p = "\<lparr>u_name = Some (Some ''''), u_description = None, u_parent_id = Some (Some 1)\<rparr>"
  have g1: "objects_get (items sample_store) 1 = Inr warehouse"
    by (simp add: objects_get_def sample_defs)
  have g3: "objects_get (items sample_store) 3 = Inr bin_1"
    by (simp add: objects_get_def sample_defs)
  have v: "validate_parent_relationship (items sample_store) bin_1 1 = Inr warehouse"
    by (simp add: validate_parent_relationship_def g1) (simp add: sample_defs is_ancestor_of_def)
  have pc: "\<forall>p. c_parent_id ?c = Some p \<and> p \<noteq> 0 \<longrightarrow>
              (\<exists>parent. objects_get (items sample_store) p = Inr parent)"
    by (simp add: g1)
  have pu: "\<forall>p. data_parent_id ?u = Some p \<longrightarrow>
              (\<exists>parent. validate_parent_relationship (items sample_store) bin_1 p = Inr parent)"
    "\<forall>p. data_parent_id ?p = Some p \<longrightarrow>
              (\<exists>parent. validate_parent_relationship (items sample_store) bin_1 p = Inr parent)"
    by (simp_all add: data_parent_id_def v)
  have "(''name'', name_not_blank) \<in> set sample_checks \<and>
        name_not_blank sample_store (Item ?c) = Some ''This field cannot be blank.''"
    by (simp add: sample_checks_def name_not_blank_def Item_def)
  then have h1: "\<exists>f chk m. (f, chk) \<in> set sample_checks \<and> chk sample_store (Item ?c) = Some m"
    by blast
  have "(''name'', name_not_null) \<in> set sample_checks \<and>
        name_not_null sample_store (put_attrs ?u bin_1) = Some ''This field cannot be null.''"
    by (simp add: sample_checks_def name_not_null_def put_attrs_def)
  then have h2: "\<exists>f chk m. (f, chk) \<in> set sample_checks \<and>
        chk sample_store (put_attrs ?u bin_1) = Some m"
    by blast
  have "(''name'', name_not_blank) \<in> set sample_checks \<and>
        name_not_blank sample_store (patch_attrs ?p bin_1) = Some ''This field cannot be blank.''"
    by (simp add: sample_checks_def name_not_blank_def patch_attrs_def)
  then have h3: "\<exists>f chk m. (f, chk) \<in> set sample_checks \<and>
        chk sample_store (patch_attrs ?p bin_1) = Some m"
    by blast
  have e1: "full_clean_spec sample_checks sample_store (Item ?c) =
        [(''name'', [''This field cannot be blank.'',
                     ''Ensure this value has at least 3 characters.'']),
         (''description'', [''This field cannot be blank.''])]"
    by (simp add: full_clean_spec_def sample_checks_def Item_def name_not_null_def
        name_not_blank_def name_min_length_def description_not_blank_def)
  have e2: "full_clean_spec sample_checks sample_store (put_attrs ?u bin_1) =
        [(''name'', [''This field cannot be null.'']),
         (''description'', [''This field cannot be blank.''])]"
    by (simp add: full_clean_spec_def sample_checks_def put_attrs_def name_not_null_def
        name_not_blank_def name_min_length_def description_not_blank_def)
  have e3: "full_clean_spec sample_checks sample_store (patch_attrs ?p bin_1) =
        [(''name'', [''This field cannot be blank.'',
                     ''Ensure this value has at least 3 characters.''])]"
    by (simp add: full_clean_spec_def sample_checks_def patch_attrs_def name_not_null_def
        name_not_blank_def name_min_length_def description_not_blank_def bin_1_def)
  have m: "map_of (full_clean_spec sample_checks sample_store (Item ?c)) ''name'' =
     Some [''This field cannot be blank.'', ''Ensure this value has at least 3 characters.'']"
    unfolding e1 by simp
  note T = C8_validation_errors_aggregated [of sample_checks sample_store ?c 3 bin_1 ?u bin_1]
  note T' = C8_validation_errors_aggregated [of sample_checks sample_store ?c 3 bin_1 ?p bin_1]
  have c1: "create_item (full_clean_spec sample_checks) ?c sample_store =
      (Inl (HttpError 400 (FieldErrors (full_clean_spec sample_checks sample_store (Item ?c)))),
       sample_store)"
    by (rule T [THEN conjunct1, THEN mp, OF conjI [OF h1 pc]])
  have c2: "update_item (full_clean_spec sample_checks) 3 ?u sample_store =
      (Inl (HttpError 400
         (FieldErrors (full_clean_spec sample_checks sample_store (put_attrs ?u bin_1)))),
       sample_store)"
    by (rule T [THEN conjunct2, THEN conjunct1, THEN mp, OF conjI [OF g3 pu(1)],
          THEN conjunct1, THEN mp, OF h2])
  have c3: "partial_update_item (full_clean_spec sample_checks) 3 ?p sample_store =
      (Inl (HttpError 400
         (FieldErrors (full_clean_spec sample_checks sample_store (patch_attrs ?p bin_1)))),
       sample_store)"
    by (rule T' [THEN conjunct2, THEN conjunct1, THEN mp, OF conjI [OF g3 pu(2)],
          THEN conjunct2, THEN mp, OF h3])
  show ?thesis using c1 c2 c3 m unfolding e1 e2 e3 by simp
qed

text \<open>
  C9. Serializing a history entry is a total function, so it never fails; where the item
  reference is null the item name is the sentinel "Deleted Item" and the item id is null,
  and where the old or the new parent reference is null its name is the sentinel "Storage".
\<close>

theorem C9_history_fallback_labels:
  "(ch_item obj = None \<longrightarrow>
      o_item_name (ComponentHistorySchema obj) = Some ''Deleted Item'' \<and>
      o_item (ComponentHistorySchema obj) = None) \<and>
   (ch_old_parent obj = None \<longrightarrow>
      o_old_parent_name (ComponentHistorySchema obj) = Some ''Storage'' \<and>
      o_old_parent (ComponentHistorySchema obj) = None) \<and>
   (ch_new_parent obj = None \<longrightarrow>
      o_new_parent_name (ComponentHistorySchema obj) = Some ''Storage'' \<and>
      o_new_parent (ComponentHistorySchema obj) = None)"
  by (simp add: ComponentHistorySchema_def resolve_item_def resolve_old_parent_def
      resolve_new_parent_def resolve_item_name_def resolve_old_parent_name_def
      resolve_new_parent_name_def)

theorem C9_history_fallback_labels_witness:
  "ch_item \<lparr>ch_id = 7, ch_item = None, ch_old_parent = None, ch_new_parent = None\<rparr> = None \<and>
   ComponentHistorySchema \<lparr>ch_id = 7, ch_item = None, ch_old_parent = None, ch_new_parent = None\<rparr>
     = \<lparr>o_id = 7, o_item = None, o_old_parent = None, o_new_parent = None,
        o_item_name = Some ''Deleted Item'', o_old_parent_name = Some ''Storage'',
        o_new_parent_name = Some ''Storage''\<rparr>"
  using C9_history_fallback_labels
    [of "\<lparr>ch_id = 7, ch_item = None, ch_old_parent = None, ch_new_parent = None\<rparr>"]
  by (simp add: ComponentHistorySchema_def)

text \<open>
  C10, as stated, fails: past the two gates the attachment's own validation still runs, and
  when it finds a problem the answer is HTTP 400 and no attachment is created. Here the
  content type "application/vnd.ms-excel" and the size 100 pass both gates, and a check on
  the length of the type rejects the attachment.
\<close>

theorem C10_model_validation_may_reject:
  "startswith (content_type \<lparr>content_type = ''application/vnd.ms-excel'', size = 100\<rparr>)
     [''image/'', ''application/'', ''text/''] \<and>
   size \<lparr>content_type = ''application/vnd.ms-excel'', size = 100\<rparr> \<le> 10 * 1024 * 1024 \<and>
   create_attachment (full_clean_spec sample_attachment_checks) 2
       \<lparr>content_type = ''application/vnd.ms-excel'', size = 100\<rparr> sample_store =
     (Inl (HttpError 400 (FieldErrors
        [(''type'', [''Ensure this value has at most 20 characters.''])])), sample_store)"
  by (simp add: create_attachment_def atomic_def create_attachment_body_def Let_def
      objects_get_def sample_defs startswith_def full_clean_spec_def
      sample_attachment_checks_def type_max_length_def)

text \<open>
  C10, amended. For an upload to an existing item: if the content type starts with none of
  "image/", "application/", "text/", or the size exceeds 10 * 1024 * 1024, the answer is
  HTTP 400 with a message for the field "file" and the store is unchanged. Otherwise the
  attachment's own validation decides: when it finds nothing, the attachment with that
  file and content type is appended for the item and the answer is 201; when it finds a
  problem, the answer is HTTP 400 with its error dictionary and the store is unchanged.
\<close>

theorem C10_attachment_gate:
  assumes "objects_get (items s) iid = Inr obj"
  shows "(\<not> startswith (content_type file) [''image/'', ''application/'', ''text/''] \<or>
          10 * 1024 * 1024 < size file \<longrightarrow>
            create_attachment full_clean iid file s =
              (Inl (HttpError 400 (FieldErrors [(''file'',
                 [if \<not> startswith (content_type file) [''image/'', ''application/'', ''text/'']
                  then ''Unsupported file type'' else ''File size exceeds 10MB limit''])])), s)) \<and>
         (startswith (content_type file) [''image/'', ''application/'', ''text/''] \<and>
          size file \<le> 10 * 1024 * 1024 \<longrightarrow>
            (full_clean s \<lparr>att_id = 0, att_item = iid, att_file = file,
                            att_type = content_type file\<rparr> = [] \<longrightarrow>
               create_attachment full_clean iid file s =
                 (Inr (201, \<lparr>att_id = next_attachment_id (attachments s), att_item = iid,
                             att_file = file, att_type = content_type file\<rparr>),
                  s\<lparr>attachments := attachments s @
                       [\<lparr>att_id = next_attachment_id (attachments s), att_item = iid,
                         att_file = file, att_type = content_type file\<rparr>]\<rparr>)) \<and>
            (full_clean s \<lparr>att_id = 0, att_item = iid, att_file = file,
                            att_type = content_type file\<rparr> \<noteq> [] \<longrightarrow>
               create_attachment full_clean iid file s =
                 (Inl (HttpError 400 (FieldErrors
                    (full_clean s \<lparr>att_id = 0, att_item = iid, att_file = file,
                                    att_type = content_type file\<rparr>))), s)))"
proof -
  have k: "pk obj = iid" using objects_get_Inr [OF assms] by simp
  show ?thesis
    using assms k
    by (simp add: create_attachment_def atomic_def create_attachment_body_def Let_def
        split: list.splits)
qed

theorem C10_attachment_gate_witness:
  "create_attachment (full_clean_spec sample_attachment_checks) 2
       \<lparr>content_type = ''video/mp4'', size = 100\<rparr> sample_store =
     (Inl (HttpError 400 (FieldErrors [(''file'', [''Unsupported file type''])])), sample_store) \<and>
   create_attachment (full_clean_spec sample_attachment_checks) 2
       \<lparr>content_type = ''image/png'', size = 10485761\<rparr> sample_store =
     (Inl (HttpError 400 (FieldErrors [(''file'', [''File size exceeds 10MB limit''])])), sample_store) \<and>
   create_attachment (full_clean_spec sample_attachment_checks) 2
       \<lparr>content_type = ''image/png'', size = 10485760\<rparr> sample_store =
     (Inr (201, \<lparr>att_id = 1, att_item = 2,
                 att_file = \<lparr>content_type = ''image/png'', size = 10485760\<rparr>, att_type = ''image/png''\<rparr>),
      sample_store\<lparr>attachments :=
        [\<lparr>att_id = 1, att_item = 2,
          att_file = \<lparr>content_type = ''image/png'', size = 10485760\<rparr>, att_type = ''image/png''\<rparr>]\<rparr>) \<and>
   create_attachment (full_clean_spec sample_attachment_checks) 2
       \<lparr>content_type = ''application/vnd.ms-excel'', size = 100\<rparr> sample_store =
     (Inl (HttpError 400 (FieldErrors
        [(''type'', [''Ensure this value has at most 20 characters.''])])), sample_store)"
proof -
  have g: "objects_get (items sample_store) 2 = Inr shelf_a"
    by (simp add: objects_get_def sample_defs)
  have a: "attachments sample_store = []" by (simp add: sample_store_def)
  show ?thesis
    using C10_attachment_gate [OF g, of "\<lparr>content_type = ''video/mp4'', size = 100\<rparr>"
        "full_clean_spec sample_attachment_checks"]
      C10_attachment_gate [OF g, of "\<lparr>content_type = ''image/png'', size = 10485761\<rparr>"
        "full_clean_spec sample_attachment_checks"]
      C10_attachment_gate [OF g, of "\<lparr>content_type = ''image/png'', size = 10485760\<rparr>"
        "full_clean_spec sample_attachment_checks"]
      C10_attachment_gate [OF g, of "\<lparr>content_type = ''application/vnd.ms-excel'', size = 100\<rparr>"
        "full_clean_spec sample_attachment_checks"]
    by (simp add: startswith_def next_attachment_id_def a full_clean_spec_def
        sample_attachment_checks_def type_max_length_def)
qed

end
